theory Spec2Isabelle
  imports Complex_Main "HOL-Library.Word" "HOL-Library.Log_Nat"
begin

unbundle bit_operations_syntax

section \<open>Values shared by the codec and the client\<close>

text \<open>
  Python's \<open>bytes\<close> is a list of 8-bit words, Python's \<open>int\<close> is \<open>int\<close>.
  An exception is a value of type \<open>error\<close>; a function that can raise returns
  \<open>error + 'a\<close>, with \<open>Inl\<close> the exception. The text of an exception is an
  f-string: a sequence of literal pieces and interpolated values (a format such as
  \<open>.1f\<close> is left out: the piece holds the value itself).
\<close>

type_synonym byte = "8 word"

text \<open>
  Python values that are neither an \<open>int\<close> nor a member of \<open>Curve\<close>: a \<open>bool\<close>, a
  finite \<open>float\<close> (by its value), \<open>nan\<close>, an infinity (\<open>True\<close> for the positive one),
  a \<open>str\<close>, \<open>None\<close>, and a list of integers for the values that cannot be hashed.
\<close>

datatype py_other =
    PyBool bool
  | PyFloat rat
  | PyNaN
  | PyInf bool
  | PyStr string
  | PyNone
  | PyList "int list"

datatype piece = S string | I int | R rat | V py_other

type_synonym message = "piece list"

datatype error =
    ValueError message
  | ProtocolError message
  | TimeoutError message
  | ConnectionError message
  | StructError
  | AttributeError
  | OverflowError message

definition bind_e :: "error + 'a \<Rightarrow> ('a \<Rightarrow> error + 'b) \<Rightarrow> error + 'b" where
  "bind_e r f = (case r of Inl e \<Rightarrow> Inl e | Inr v \<Rightarrow> f v)"

section \<open>curves.py\<close>

datatype Curve = LINEAR | EASE_IN | EASE_OUT | EASE_IN_OUT

text \<open>\<open>int(member)\<close>: the value of a member of the \<open>IntEnum\<close>.\<close>

fun int_of_Curve :: "Curve \<Rightarrow> int" where
  "int_of_Curve LINEAR = 0"
| "int_of_Curve EASE_IN = 1"
| "int_of_Curve EASE_OUT = 2"
| "int_of_Curve EASE_IN_OUT = 3"

text \<open>
  \<open>Curve(v)\<close>: the lookup of a member by value, which raises \<open>ValueError\<close> when no
  member has the value.
\<close>

definition Curve_of_value :: "int \<Rightarrow> error + Curve" where
  "Curve_of_value v =
     (if v = 0 then Inr LINEAR
      else if v = 1 then Inr EASE_IN
      else if v = 2 then Inr EASE_OUT
      else if v = 3 then Inr EASE_IN_OUT
      else Inl (ValueError [I v, S '' is not a valid Curve'']))"

text \<open>
  \<open>Curve(v)\<close> for the other values. The lookup is by hash and equality, and a \<open>bool\<close>
  or a \<open>float\<close> is equal to the integer of the same value and has its hash:
  \<open>Curve(True)\<close> and \<open>Curve(1.0)\<close> are \<open>Curve.EASE_IN\<close>. A value that cannot be hashed
  is compared with every member's value. No member found is a \<open>ValueError\<close>.
\<close>

fun number_of :: "py_other \<Rightarrow> rat option" where
  "number_of (PyBool b) = Some (if b then 1 else 0)"
| "number_of (PyFloat x) = Some x"
| "number_of PyNaN = None"
| "number_of (PyInf _) = None"
| "number_of (PyStr _) = None"
| "number_of PyNone = None"
| "number_of (PyList _) = None"

definition Curve_of_other :: "py_other \<Rightarrow> error + Curve" where
  "Curve_of_other v =
     (if number_of v = Some 0 then Inr LINEAR
      else if number_of v = Some 1 then Inr EASE_IN
      else if number_of v = Some 2 then Inr EASE_OUT
      else if number_of v = Some 3 then Inr EASE_IN_OUT
      else Inl (ValueError [V v, S '' is not a valid Curve'']))"

section \<open>Python floats\<close>

text \<open>
  A finite Python \<open>float\<close> is an IEEE 754 double: a rational number \<open>m * 2 ^ e\<close> with
  \<open>\<bar>m\<bar> < 2 ^ 53\<close> and \<open>- 1074 \<le> e\<close>, below \<open>2 ^ 1024\<close> in absolute value. The model
  keeps a float as the rational number it is. \<open>to_double\<close> rounds a rational number to
  the nearest double, a tie to the one with the even significand; a result of \<open>2 ^ 1024\<close>
  or more is out of range.
\<close>

definition round_half_even :: "rat \<Rightarrow> int" where
  "round_half_even x =
     (let f = \<lfloor>x\<rfloor>; r = x - of_int f
      in if r < 1 / 2 then f else if 1 / 2 < r then f + 1 else if even f then f else f + 1)"

text \<open>For \<open>0 < x\<close>, the \<open>e\<close> with \<open>2 ^ e \<le> x < 2 ^ (e + 1)\<close>.\<close>

definition exponent_of :: "rat \<Rightarrow> int" where
  "exponent_of x =
     (case quotient_of x of (p, q) \<Rightarrow>
        let e = bitlen p - bitlen q in if 2 powi e \<le> x then e else e - 1)"

definition to_double :: "rat \<Rightarrow> rat option" where
  "to_double x =
     (if x = 0 then Some 0
      else
        let a = \<bar>x\<bar>;
            e = max (exponent_of a) (- 1022);
            ulp = 2 powi (e - 52);
            y = of_int (round_half_even (a / ulp)) * ulp
        in if 2 ^ 1024 \<le> y then None else Some (sgn x * y))"

text \<open>
  \<open>n / 1000.0\<close> for an \<open>int\<close> \<open>n\<close>: the integer is converted to a float, which raises
  \<open>OverflowError\<close> when it is out of range, and the two floats are divided, which rounds
  again. The quotient is smaller than the dividend, so that the division stays in
  range: its branch for a quotient out of range is never taken.
\<close>

definition float_of_int :: "int \<Rightarrow> error + rat" where
  "float_of_int n =
     (case to_double (of_int n) of
        None \<Rightarrow> Inl (OverflowError [S ''int too large to convert to float''])
      | Some x \<Rightarrow> Inr x)"

definition int_truediv_1000 :: "int \<Rightarrow> error + rat" where
  "int_truediv_1000 n =
     bind_e (float_of_int n) (\<lambda>x.
       case to_double (x / 1000) of
         None \<Rightarrow> Inl (OverflowError [S ''float division''])
       | Some t \<Rightarrow> Inr t)"

section \<open>protocol.py\<close>

definition START_BYTE :: int where "START_BYTE = 0xAA"
definition CMD_MOVE :: int where "CMD_MOVE = 0x01"
definition PACKET_SIZE :: nat where "PACKET_SIZE = 10"

definition ACK_OK :: int where "ACK_OK = 0x00"
definition NAK_CHECKSUM :: int where "NAK_CHECKSUM = 0x01"
definition NAK_INVALID :: int where "NAK_INVALID = 0x02"
definition NAK_INTERRUPTED :: int where "NAK_INTERRUPTED = 0x03"

subsection \<open>\<open>struct.pack\<close> with the format \<open><BBhhHB\<close>\<close>

text \<open>
  Little-endian, no padding. \<open>B\<close> is one unsigned byte, \<open>h\<close> a signed and \<open>H\<close> an
  unsigned 16-bit integer, low byte first. \<open>struct.pack\<close> raises \<open>struct.error\<close>
  when a value does not fit its field.
\<close>

definition pack_B :: "int \<Rightarrow> error + byte list" where
  "pack_B v = (if 0 \<le> v \<and> v \<le> 255 then Inr [word_of_int v] else Inl StructError)"

definition pack_h :: "int \<Rightarrow> error + byte list" where
  "pack_h v =
     (if - 32768 \<le> v \<and> v \<le> 32767
      then Inr [word_of_int (v mod 256), word_of_int (v div 256 mod 256)]
      else Inl StructError)"

definition pack_H :: "int \<Rightarrow> error + byte list" where
  "pack_H v =
     (if 0 \<le> v \<and> v \<le> 65535
      then Inr [word_of_int (v mod 256), word_of_int (v div 256 mod 256)]
      else Inl StructError)"

definition struct_pack_BBhhHB ::
  "int \<Rightarrow> int \<Rightarrow> int \<Rightarrow> int \<Rightarrow> int \<Rightarrow> int \<Rightarrow> error + byte list" where
  "struct_pack_BBhhHB a b c d e f =
     bind_e (pack_B a) (\<lambda>ba.
     bind_e (pack_B b) (\<lambda>bb.
     bind_e (pack_h c) (\<lambda>bc.
     bind_e (pack_h d) (\<lambda>bd.
     bind_e (pack_H e) (\<lambda>be.
     bind_e (pack_B f) (\<lambda>bf.
       Inr (ba @ bb @ bc @ bd @ be @ bf)))))))"

subsection \<open>\<open>encode_move_command\<close>\<close>

text \<open>
  The checksum loop \<open>checksum = 0; for byte in packet: checksum ^= byte\<close>. The
  bytes are below 256, so the running value is too, and \<open>bytes([checksum])\<close> cannot
  raise: the running value is kept as a byte.
\<close>

definition xor_checksum :: "byte list \<Rightarrow> byte" where
  "xor_checksum packet = fold (\<lambda>byte checksum. checksum XOR byte) packet 0"

definition encode_move_command :: "int \<Rightarrow> int \<Rightarrow> int \<Rightarrow> int \<Rightarrow> error + byte list" where
  "encode_move_command dx dy duration_ms curve =
     (if \<not> (- 32768 \<le> dx \<and> dx \<le> 32767) then
        Inl (ValueError [S ''dx must be in range [-32768, 32767], got '', I dx])
      else if \<not> (- 32768 \<le> dy \<and> dy \<le> 32767) then
        Inl (ValueError [S ''dy must be in range [-32768, 32767], got '', I dy])
      else if \<not> (1 \<le> duration_ms \<and> duration_ms \<le> 65535) then
        Inl (ValueError [S ''duration_ms must be in range [1, 65535], got '', I duration_ms])
      else if \<not> (0 \<le> curve \<and> curve \<le> 3) then
        Inl (ValueError [S ''curve must be in range [0, 3], got '', I curve])
      else
        bind_e (struct_pack_BBhhHB START_BYTE CMD_MOVE dx dy duration_ms curve) (\<lambda>packet.
          Inr (packet @ [xor_checksum packet])))"

subsection \<open>\<open>decode_response\<close>\<close>

text \<open>\<open>response[0]\<close> is the byte as an integer between 0 and 255.\<close>

definition decode_response :: "byte list \<Rightarrow> error + (bool \<times> int)" where
  "decode_response response =
     (if length response \<noteq> 1 then
        Inl (ProtocolError
          [S ''Expected 1-byte response, got '', I (int (length response)), S '' bytes''])
      else
        (let code = uint (hd response);
             success = (code = ACK_OK)
         in Inr (success, code)))"

definition response_code_to_string :: "int \<Rightarrow> message" where
  "response_code_to_string code =
     (if code = ACK_OK then [S ''Movement completed successfully'']
      else if code = NAK_CHECKSUM then [S ''Checksum error'']
      else if code = NAK_INVALID then [S ''Invalid command'']
      else if code = NAK_INTERRUPTED then [S ''Movement interrupted by new command'']
      else [S ''Unknown response code: '', I code])"

section \<open>client.py\<close>

subsection \<open>The serial port\<close>

text \<open>
  The client talks to a \<open>serial.Serial\<close> object of pySerial, which is not part of
  the repository. The model keeps what the client uses of it: the \<open>is_open\<close> flag,
  the \<open>timeout\<close> attribute (seconds), and the input buffer. Two logs make the
  client's effects visible: \<open>written\<close> holds every frame passed to \<open>write\<close>, and
  \<open>waits\<close> holds the timeout in force at every \<open>read\<close>. The actuator at the other
  end of the line is a script, \<open>device\<close>: its head is what the actuator sends back
  after the next frame it receives (\<open>[]\<close> for silence). The reply is in the input
  buffer by the time the read that follows the write gives up. The operations of the
  port do not raise.

  The timeout is a float, \<open>(duration_ms + self.timeout_buffer_ms) / 1000.0\<close>, kept as
  the rational number that the float is.
\<close>

record Serial =
  is_open :: bool
  timeout :: rat
  in_buffer :: "byte list"
  device :: "byte list list"
  written :: "byte list list"
  waits :: "rat list"

definition reset_input_buffer :: "Serial \<Rightarrow> Serial" where
  "reset_input_buffer sp = sp\<lparr>in_buffer := []\<rparr>"

definition serial_write :: "Serial \<Rightarrow> byte list \<Rightarrow> Serial" where
  "serial_write sp data =
     (case device sp of
        [] \<Rightarrow> sp\<lparr>written := written sp @ [data]\<rparr>
      | reply # later \<Rightarrow>
          sp\<lparr>written := written sp @ [data], in_buffer := in_buffer sp @ reply,
             device := later\<rparr>)"

definition serial_flush :: "Serial \<Rightarrow> Serial" where
  "serial_flush sp = sp"

text \<open>\<open>read(n)\<close> returns at most \<open>n\<close> bytes, fewer when the timeout expires first.\<close>

definition serial_read :: "Serial \<Rightarrow> nat \<Rightarrow> byte list \<times> Serial" where
  "serial_read sp n =
     (take n (in_buffer sp),
      sp\<lparr>in_buffer := drop n (in_buffer sp), waits := waits sp @ [timeout sp]\<rparr>)"

definition serial_close :: "Serial \<Rightarrow> Serial" where
  "serial_close sp = sp\<lparr>is_open := False\<rparr>"

subsection \<open>The session\<close>

text \<open>
  \<open>self._serial\<close> is \<open>None\<close> or a reference to the port object. Port objects live
  in a heap, so that a port is still there to look at after the session has dropped
  its reference. A method takes and returns the heap and the session object.
\<close>

type_synonym heap = "nat \<Rightarrow> Serial"

record ArduinoMouse =
  port :: string
  baudrate :: int
  timeout_buffer_ms :: int
  MAX_RETRIES :: int
  serial :: "nat option"

type_synonym world = "heap \<times> ArduinoMouse"

definition DEFAULT_BAUDRATE :: int where "DEFAULT_BAUDRATE = 115200"
definition DEFAULT_TIMEOUT_BUFFER_MS :: int where "DEFAULT_TIMEOUT_BUFFER_MS = 1000"

text \<open>
  \<open>__init__\<close> and \<open>_connect\<close>. Opening the port is the environment's part: \<open>line\<close>
  is the text of the \<open>SerialException\<close> when \<open>serial.Serial(...)\<close> raises, and otherwise
  the script of the actuator on the line; \<open>r\<close> is the reference of the new port object.
\<close>

definition ArduinoMouse_init ::
  "heap \<Rightarrow> nat \<Rightarrow> string + byte list list \<Rightarrow> string \<Rightarrow> int \<Rightarrow> int \<Rightarrow> error + world" where
  "ArduinoMouse_init h r line p b tb =
     (let self = \<lparr>port = p, baudrate = b, timeout_buffer_ms = tb, MAX_RETRIES = 1,
                  serial = None\<rparr>
      in case line of
           Inl e \<Rightarrow> Inl (ConnectionError [S ''Failed to connect to Arduino on '', S p, S '': '', S e])
         | Inr script \<Rightarrow>
             Inr (h(r := \<lparr>is_open = True, timeout = 1, in_buffer = [], device = script,
                         written = [], waits = []\<rparr>),
                  self\<lparr>serial := Some r\<rparr>))"

definition ensure_connected :: "world \<Rightarrow> error + unit" where
  "ensure_connected w =
     (case w of (h, self) \<Rightarrow>
        (case serial self of
           None \<Rightarrow> Inl (ConnectionError [S ''Not connected to Arduino''])
         | Some r \<Rightarrow>
             if \<not> is_open (h r) then Inl (ConnectionError [S ''Not connected to Arduino''])
             else Inr ()))"

text \<open>
  The \<open>curve\<close> argument of \<open>move\<close>: a member of \<open>Curve\<close>, or a plain integer, or any
  other value; \<open>move\<close> converts what is not a member with \<open>Curve(curve)\<close>.
\<close>

datatype curve_arg = Member Curve | Plain int | Other py_other

definition validate_curve :: "curve_arg \<Rightarrow> error + Curve" where
  "validate_curve curve =
     (case curve of
        Member c \<Rightarrow> Inr c
      | Plain v \<Rightarrow>
          (case Curve_of_value v of
             Inr c \<Rightarrow> Inr c
           | Inl (ValueError _) \<Rightarrow> Inl (ValueError [S ''Invalid curve value: '', I v])
           | Inl e \<Rightarrow> Inl e)
      | Other v \<Rightarrow>
          (case Curve_of_other v of
             Inr c \<Rightarrow> Inr c
           | Inl (ValueError _) \<Rightarrow> Inl (ValueError [S ''Invalid curve value: '', V v])
           | Inl e \<Rightarrow> Inl e))"

text \<open>
  One pass through the body of the retry loop up to the read: clear the input buffer,
  write the frame, flush, set the timeout, read one byte.
\<close>

definition exchange :: "Serial \<Rightarrow> byte list \<Rightarrow> rat \<Rightarrow> byte list \<times> Serial" where
  "exchange sp command timeout_seconds =
     (let sp1 = reset_input_buffer sp;
          sp2 = serial_write sp1 command;
          sp3 = serial_flush sp2;
          sp4 = sp3\<lparr>timeout := timeout_seconds\<rparr>
      in serial_read sp4 1)"

text \<open>
  The loop \<open>for attempt in range(self.MAX_RETRIES + 1)\<close>, over the attempts that are
  left. \<open>continue\<close> goes on with the next attempt; a loop that runs out of attempts
  falls through to the end of \<open>move\<close>, which returns \<open>None\<close>.
\<close>

fun send_attempts ::
  "Serial \<Rightarrow> byte list \<Rightarrow> rat \<Rightarrow> int \<Rightarrow> int list \<Rightarrow> (error + unit) \<times> Serial" where
  "send_attempts sp command timeout_seconds max_retries [] = (Inr (), sp)"
| "send_attempts sp command timeout_seconds max_retries (attempt # later) =
     (case exchange sp command timeout_seconds of (response, sp') \<Rightarrow>
        if length response = 0 then
          (Inl (TimeoutError
             [S ''Arduino did not respond within '', R timeout_seconds, S ''s'']), sp')
        else
          (case decode_response response of
             Inl e \<Rightarrow> (Inl e, sp')
           | Inr (success, code) \<Rightarrow>
               if success then (Inr (), sp')
               else if code = NAK_CHECKSUM \<and> attempt < max_retries then
                 send_attempts sp' command timeout_seconds max_retries later
               else
                 (Inl (ProtocolError
                    (S ''Movement failed: '' # response_code_to_string code)), sp')))"

definition move :: "world \<Rightarrow> int \<Rightarrow> int \<Rightarrow> int \<Rightarrow> curve_arg \<Rightarrow> (error + unit) \<times> world" where
  "move w dx dy duration_ms curve =
     (case w of (h, self) \<Rightarrow>
        (case ensure_connected w of
           Inl e \<Rightarrow> (Inl e, w)
         | Inr _ \<Rightarrow>
        (case validate_curve curve of
           Inl e \<Rightarrow> (Inl e, w)
         | Inr c \<Rightarrow>
        (case encode_move_command dx dy duration_ms (int_of_Curve c) of
           Inl e \<Rightarrow> (Inl e, w)
         | Inr command \<Rightarrow>
        (case int_truediv_1000 (duration_ms + timeout_buffer_ms self) of
           Inl e \<Rightarrow> (Inl e, w)
         | Inr timeout_seconds \<Rightarrow>
        (let attempts = [0 .. MAX_RETRIES self]
         in case serial self of
              None \<Rightarrow> (if attempts = [] then (Inr (), w) else (Inl AttributeError, w))
            | Some r \<Rightarrow>
                (case send_attempts (h r) command timeout_seconds (MAX_RETRIES self) attempts of
                   (result, sp') \<Rightarrow> (result, (h(r := sp'), self)))))))))"

definition close :: "world \<Rightarrow> (error + unit) \<times> world" where
  "close w =
     (case w of (h, self) \<Rightarrow>
        (case serial self of
           None \<Rightarrow> (Inr (), w)
         | Some r \<Rightarrow>
             if is_open (h r) then
               (Inr (), (h(r := serial_close (h r)), self\<lparr>serial := None\<rparr>))
             else (Inr (), w)))"

text \<open>\<open>__exit__\<close> and \<open>__del__\<close> call \<open>close\<close> and nothing else.\<close>

definition context_exit :: "world \<Rightarrow> (error + unit) \<times> world" where
  "context_exit w = close w"

definition destructor :: "world \<Rightarrow> (error + unit) \<times> world" where
  "destructor w = close w"

section \<open>Notions of the specification\<close>

text \<open>
  A 16-bit word as two bytes, low byte first, and the two readings of two such bytes:
  as a signed and as an unsigned 16-bit integer.
\<close>

definition le16 :: "16 word \<Rightarrow> byte list" where
  "le16 w = [ucast w, ucast (drop_bit 8 w)]"

definition read_i16_le :: "byte \<Rightarrow> byte \<Rightarrow> int" where
  "read_i16_le lo hi = sint (word_cat hi lo :: 16 word)"

definition read_u16_le :: "byte \<Rightarrow> byte \<Rightarrow> int" where
  "read_u16_le lo hi = uint (word_cat hi lo :: 16 word)"

text \<open>
  The specification's \<open>decode_header\<close>: the fields of a frame read back from bytes 2
  to 8. The repository has no such function; this one follows the specification.
\<close>

definition decode_header :: "byte list \<Rightarrow> int \<times> int \<times> int \<times> int" where
  "decode_header frame =
     (read_i16_le (frame ! 2) (frame ! 3), read_i16_le (frame ! 4) (frame ! 5),
      read_u16_le (frame ! 6) (frame ! 7), uint (frame ! 8))"

definition xor_first_nine :: "byte list \<Rightarrow> byte" where
  "xor_first_nine frame =
     frame ! 0 XOR frame ! 1 XOR frame ! 2 XOR frame ! 3 XOR frame ! 4 XOR
     frame ! 5 XOR frame ! 6 XOR frame ! 7 XOR frame ! 8"

text \<open>A frame is well-formed when its trailing byte is the XOR of the first nine.\<close>

definition well_formed :: "byte list \<Rightarrow> bool" where
  "well_formed frame \<longleftrightarrow> length frame = 10 \<and> frame ! 9 = xor_first_nine frame"

text \<open>Bit \<open>k\<close> of byte \<open>i\<close> flipped.\<close>

definition flip_bit_at :: "byte list \<Rightarrow> nat \<Rightarrow> nat \<Rightarrow> byte list" where
  "flip_bit_at frame i k = frame[i := frame ! i XOR push_bit k 1]"

definition valid_move :: "int \<Rightarrow> int \<Rightarrow> int \<Rightarrow> int \<Rightarrow> bool" where
  "valid_move dx dy duration_ms curve \<longleftrightarrow>
     - 32768 \<le> dx \<and> dx \<le> 32767 \<and> - 32768 \<le> dy \<and> dy \<le> 32767 \<and>
     1 \<le> duration_ms \<and> duration_ms \<le> 65535 \<and> 0 \<le> curve \<and> curve \<le> 3"

text \<open>What the actuator sends back after the next frame.\<close>

definition next_reply :: "Serial \<Rightarrow> byte list" where
  "next_reply sp = (case device sp of [] \<Rightarrow> [] | reply # _ \<Rightarrow> reply)"

text \<open>A session on a fresh port, as the constructor leaves it, with its defaults.\<close>

definition fresh_port :: "byte list list \<Rightarrow> Serial" where
  "fresh_port script =
     \<lparr>is_open = True, timeout = 1, in_buffer = [], device = script, written = [],
      waits = []\<rparr>"

definition fresh_session :: ArduinoMouse where
  "fresh_session =
     \<lparr>port = ''/dev/ttyACM0'', baudrate = 115200, timeout_buffer_ms = 1000,
      MAX_RETRIES = 1, serial = Some 0\<rparr>"

definition connected_to :: "byte list list \<Rightarrow> world" where
  "connected_to script = ((\<lambda>_. fresh_port []) (0 := fresh_port script), fresh_session)"

text \<open>The frame of a valid command, byte by byte.\<close>

definition frame_of :: "int \<Rightarrow> int \<Rightarrow> int \<Rightarrow> int \<Rightarrow> byte list" where
  "frame_of dx dy duration_ms curve =
     (let payload = [0xAA, 0x01] @ le16 (word_of_int dx) @ le16 (word_of_int dy) @
                    le16 (word_of_int duration_ms) @ [word_of_int curve]
      in payload @ [xor_checksum payload])"

section \<open>Properties of the codec\<close>

lemma mod256: "(v::int) mod 256 = take_bit 8 v"
  by (simp add: take_bit_eq_mod)

lemma div256: "(v::int) div 256 = drop_bit 8 v"
  by (simp add: drop_bit_eq_div)

lemma le16_of_int:
  "le16 (word_of_int v) = [word_of_int (v mod 256), word_of_int (v div 256 mod 256)]"
proof -
  have lo: "(ucast (word_of_int v :: 16 word) :: byte) = word_of_int (v mod 256)"
    unfolding mod256 by (rule bit_word_eqI) (auto simp add: bit_simps)
  have hi: "(ucast (drop_bit 8 (word_of_int v :: 16 word)) :: byte) = word_of_int (v div 256 mod 256)"
    unfolding mod256 div256 by (rule bit_word_eqI) (auto simp add: bit_simps)
  show ?thesis by (simp only: le16_def lo hi)
qed

lemma word_cat_le16: "word_cat (ucast (drop_bit 8 w) :: byte) (ucast w :: byte) = w" for w :: "16 word"
  by (rule bit_word_eqI) (auto simp add: bit_simps)

lemma sint16: "- 32768 \<le> v \<Longrightarrow> v \<le> 32767 \<Longrightarrow> sint (word_of_int v :: 16 word) = v"
  by (simp add: sint_sbintrunc' signed_take_bit_int_eq_self)

lemma uint16: "0 \<le> v \<Longrightarrow> v \<le> 65535 \<Longrightarrow> uint (word_of_int v :: 16 word) = v"
  by (simp add: uint_word_of_int)

lemma uint8: "0 \<le> v \<Longrightarrow> v \<le> 255 \<Longrightarrow> uint (word_of_int v :: byte) = v"
  by (simp add: uint_word_of_int)

lemma read_le16: "read_i16_le (le16 w ! 0) (le16 w ! 1) = sint w" "read_u16_le (le16 w ! 0) (le16 w ! 1) = uint w"
  by (simp_all add: le16_def read_i16_le_def read_u16_le_def word_cat_le16)

lemma encode_valid:
  assumes "valid_move dx dy duration_ms curve"
  shows "encode_move_command dx dy duration_ms curve = Inr (frame_of dx dy duration_ms curve)"
  using assms
  by (simp add: valid_move_def encode_move_command_def struct_pack_BBhhHB_def bind_e_def
      pack_B_def pack_h_def pack_H_def START_BYTE_def CMD_MOVE_def le16_of_int frame_of_def)

lemma encode_invalid:
  assumes "\<not> valid_move dx dy duration_ms curve"
  shows "\<exists>m. encode_move_command dx dy duration_ms curve = Inl (ValueError m)"
  using assms by (auto simp add: valid_move_def encode_move_command_def)

lemma xor_checksum_nine:
  "xor_checksum [b0, b1, b2, b3, b4, b5, b6, b7, b8] =
     b0 XOR b1 XOR b2 XOR b3 XOR b4 XOR b5 XOR b6 XOR b7 XOR b8"
  by (simp add: xor_checksum_def ac_simps)

lemma frame_of_nth:
  "length (frame_of dx dy d c) = 10"
  "frame_of dx dy d c ! 0 = 0xAA"
  "frame_of dx dy d c ! 1 = 0x01"
  "[frame_of dx dy d c ! 2, frame_of dx dy d c ! 3] = le16 (word_of_int dx)"
  "[frame_of dx dy d c ! 4, frame_of dx dy d c ! 5] = le16 (word_of_int dy)"
  "[frame_of dx dy d c ! 6, frame_of dx dy d c ! 7] = le16 (word_of_int d)"
  "frame_of dx dy d c ! 8 = word_of_int c"
  "frame_of dx dy d c ! 9 = xor_first_nine (frame_of dx dy d c)"
  by (simp_all add: frame_of_def le16_def xor_first_nine_def xor_checksum_nine)

lemma frame_of_well_formed: "well_formed (frame_of dx dy d c)"
  by (simp add: well_formed_def frame_of_nth)

lemma decode_header_frame_of:
  "decode_header (frame_of dx dy d c) =
     (sint (word_of_int dx :: 16 word), sint (word_of_int dy :: 16 word),
      uint (word_of_int d :: 16 word), uint (word_of_int c :: byte))"
  by (simp add: decode_header_def frame_of_def le16_def read_i16_le_def read_u16_le_def word_cat_le16)

lemma push_bit_one_nonzero: "k < 8 \<Longrightarrow> (push_bit k 1 :: byte) \<noteq> 0"
proof -
  assume "k < 8"
  then have "k = 0 \<or> k = 1 \<or> k = 2 \<or> k = 3 \<or> k = 4 \<or> k = 5 \<or> k = 6 \<or> k = 7"
    by arith
  then show ?thesis by (elim disjE) simp_all
qed

lemma xor_cancel_neq: "m \<noteq> 0 \<Longrightarrow> a XOR m \<noteq> a" for a m :: byte
  by (metis bit.xor_self xor.left_commute xor.right_neutral)

lemma lt9_cases: "i < 9 \<Longrightarrow> i = 0 \<or> i = 1 \<or> i = 2 \<or> i = 3 \<or> i = 4 \<or> i = 5 \<or> i = 6 \<or> i = 7 \<or> i = (8::nat)"
  by arith

lemma xor_first_nine_update:
  assumes "length frame = 10" "i < 9"
  shows "xor_first_nine (frame[i := frame ! i XOR m]) = xor_first_nine frame XOR m"
  using lt9_cases [OF assms(2)] assms(1)
  by (elim disjE) (simp_all add: xor_first_nine_def ac_simps)

lemma flip_not_well_formed:
  assumes "well_formed frame" "i < 9" "k < 8"
  shows "\<not> well_formed (flip_bit_at frame i k)"
proof -
  from assms(1) have len: "length frame = 10" and chk: "frame ! 9 = xor_first_nine frame"
    by (simp_all add: well_formed_def)
  have "flip_bit_at frame i k ! 9 = frame ! 9"
    using assms(2) by (simp add: flip_bit_at_def)
  moreover have "xor_first_nine (flip_bit_at frame i k) = xor_first_nine frame XOR push_bit k 1"
    unfolding flip_bit_at_def by (rule xor_first_nine_update [OF len assms(2)])
  moreover have "xor_first_nine frame XOR push_bit k 1 \<noteq> xor_first_nine frame"
    by (rule xor_cancel_neq [OF push_bit_one_nonzero [OF assms(3)]])
  ultimately show ?thesis using chk by (simp add: well_formed_def)
qed

subsection \<open>Claim C1\<close>

text \<open>
  C1. For every valid input (\<open>dx\<close> and \<open>dy\<close> in [-32768, 32767], \<open>duration_ms\<close> in
  [1, 65535], \<open>curve\<close> in {0, 1, 2, 3}), \<open>encode_move_command\<close> returns exactly 10
  bytes: byte 0 is 0xAA, byte 1 is 0x01, bytes 2-3 are \<open>dx\<close> and bytes 4-5 are \<open>dy\<close>
  as signed little-endian 16-bit, bytes 6-7 are \<open>duration_ms\<close> as unsigned little-endian
  16-bit, byte 8 is \<open>curve\<close>, and byte 9 is the XOR of bytes 0 to 8. In particular
  the command (200, 0, 500, 0) is encoded as AA 01 C8 00 00 00 F4 01 00 followed by the
  XOR of those nine bytes.
\<close>

theorem encode_move_command_layout:
  "(valid_move dx dy duration_ms curve \<longrightarrow>
     (\<exists>frame. encode_move_command dx dy duration_ms curve = Inr frame \<and>
        length frame = 10 \<and>
        frame ! 0 = 0xAA \<and> frame ! 1 = 0x01 \<and>
        [frame ! 2, frame ! 3] = le16 (word_of_int dx) \<and>
        sint (word_of_int dx :: 16 word) = dx \<and>
        [frame ! 4, frame ! 5] = le16 (word_of_int dy) \<and>
        sint (word_of_int dy :: 16 word) = dy \<and>
        [frame ! 6, frame ! 7] = le16 (word_of_int duration_ms) \<and>
        uint (word_of_int duration_ms :: 16 word) = duration_ms \<and>
        uint (frame ! 8) = curve \<and>
        frame ! 9 = frame ! 0 XOR frame ! 1 XOR frame ! 2 XOR frame ! 3 XOR frame ! 4 XOR
                    frame ! 5 XOR frame ! 6 XOR frame ! 7 XOR frame ! 8)) \<and>
   encode_move_command 200 0 500 0 =
     Inr [0xAA, 0x01, 0xC8, 0x00, 0x00, 0x00, 0xF4, 0x01, 0x00,
          0xAA XOR 0x01 XOR 0xC8 XOR 0x00 XOR 0x00 XOR 0x00 XOR 0xF4 XOR 0x01 XOR 0x00]"
proof (intro conjI impI)
  assume v: "valid_move dx dy duration_ms curve"
  let ?f = "frame_of dx dy duration_ms curve"
  have enc: "encode_move_command dx dy duration_ms curve = Inr ?f"
    by (rule encode_valid [OF v])
  have dx: "sint (word_of_int dx :: 16 word) = dx"
    and dy: "sint (word_of_int dy :: 16 word) = dy"
    and du: "uint (word_of_int duration_ms :: 16 word) = duration_ms"
    and cu: "uint (word_of_int curve :: byte) = curve"
    using v by (simp_all add: valid_move_def sint16 uint16 uint8)
  have chk: "?f ! 9 = ?f ! 0 XOR ?f ! 1 XOR ?f ! 2 XOR ?f ! 3 XOR ?f ! 4 XOR
                    ?f ! 5 XOR ?f ! 6 XOR ?f ! 7 XOR ?f ! 8"
    using frame_of_nth(8) [of dx dy duration_ms curve] by (simp only: xor_first_nine_def)
  show "\<exists>frame. encode_move_command dx dy duration_ms curve = Inr frame \<and>
        length frame = 10 \<and>
        frame ! 0 = 0xAA \<and> frame ! 1 = 0x01 \<and>
        [frame ! 2, frame ! 3] = le16 (word_of_int dx) \<and>
        sint (word_of_int dx :: 16 word) = dx \<and>
        [frame ! 4, frame ! 5] = le16 (word_of_int dy) \<and>
        sint (word_of_int dy :: 16 word) = dy \<and>
        [frame ! 6, frame ! 7] = le16 (word_of_int duration_ms) \<and>
        uint (word_of_int duration_ms :: 16 word) = duration_ms \<and>
        uint (frame ! 8) = curve \<and>
        frame ! 9 = frame ! 0 XOR frame ! 1 XOR frame ! 2 XOR frame ! 3 XOR frame ! 4 XOR
                    frame ! 5 XOR frame ! 6 XOR frame ! 7 XOR frame ! 8"
    apply (rule exI [of _ ?f])
    apply (intro conjI)
               apply (rule enc)
              apply (rule frame_of_nth(1))
             apply (rule frame_of_nth(2))
            apply (rule frame_of_nth(3))
           apply (rule frame_of_nth(4))
          apply (rule dx)
         apply (rule frame_of_nth(5))
        apply (rule dy)
       apply (rule frame_of_nth(6))
      apply (rule du)
     apply (simp only: frame_of_nth(7) cu)
    apply (rule chk)
    done
next
  show "encode_move_command 200 0 500 0 =
     Inr [0xAA, 0x01, 0xC8, 0x00, 0x00, 0x00, 0xF4, 0x01, 0x00,
          0xAA XOR 0x01 XOR 0xC8 XOR 0x00 XOR 0x00 XOR 0x00 XOR 0xF4 XOR 0x01 XOR 0x00]"
    by (simp add: encode_move_command_def struct_pack_BBhhHB_def bind_e_def pack_B_def
        pack_h_def pack_H_def START_BYTE_def CMD_MOVE_def xor_checksum_def)
qed

theorem encode_move_command_layout_witness:
  "valid_move (- 300) 70 1234 2 \<and>
   (\<exists>frame. encode_move_command (- 300) 70 1234 2 = Inr frame \<and> length frame = 10 \<and>
      frame ! 0 = 0xAA \<and> frame ! 1 = 0x01 \<and>
      [frame ! 2, frame ! 3] = [0xD4, 0xFE] \<and> [frame ! 4, frame ! 5] = [0x46, 0x00] \<and>
      [frame ! 6, frame ! 7] = [0xD2, 0x04] \<and> uint (frame ! 8) = 2)"
proof -
  have v: "valid_move (- 300) 70 1234 2" by (simp add: valid_move_def)
  have le: "le16 (word_of_int (- 300)) = [0xD4, 0xFE]" "le16 (word_of_int 70) = [0x46, 0x00]"
    "le16 (word_of_int 1234) = [0xD2, 0x04]"
    using le16_of_int [of "- 300"] le16_of_int [of 70] le16_of_int [of 1234] by simp_all
  from encode_move_command_layout [of "- 300" 70 1234 2, THEN conjunct1] v
  show ?thesis unfolding le by blast
qed

lemma encode_Inr:
  assumes "encode_move_command dx dy duration_ms curve = Inr frame"
  shows "valid_move dx dy duration_ms curve \<and> frame = frame_of dx dy duration_ms curve"
proof (cases "valid_move dx dy duration_ms curve")
  case True
  with assms encode_valid [OF True] show ?thesis by simp
next
  case False
  from encode_invalid [OF False] assms show ?thesis by auto
qed

subsection \<open>Claim C3\<close>

text \<open>
  C3. On an input of exactly one byte \<open>b\<close>, \<open>decode_response\<close> does not fail and returns
  the pair (success, code) with code the byte and success true exactly when the byte is
  0x00, so that 0x01, 0x02, 0x03 and every other nonzero byte are failures that keep
  their code. On an input of no byte, or of two bytes or more, it raises the protocol
  error of a wrong length, and it fails in no other case.
\<close>

theorem decode_response_total_on_one_byte:
  "decode_response [b] = Inr (b = 0, uint b) \<and>
   (length response \<noteq> 1 \<longrightarrow>
      decode_response response =
        Inl (ProtocolError
          [S ''Expected 1-byte response, got '', I (int (length response)), S '' bytes''])) \<and>
   ((\<exists>e. decode_response response = Inl e) \<longleftrightarrow> length response \<noteq> 1) \<and>
   decode_response [0x00] = Inr (True, 0) \<and>
   decode_response [0x01] = Inr (False, 1) \<and>
   decode_response [0x02] = Inr (False, 2) \<and>
   decode_response [0x03] = Inr (False, 3) \<and>
   decode_response [0x55] = Inr (False, 0x55)"
proof -
  have one: "decode_response [c] = Inr (c = 0, uint c)" for c
    by (simp add: decode_response_def ACK_OK_def Let_def uint_0_iff)
  have "decode_response [0x00] = Inr (True, 0)" "decode_response [0x01] = Inr (False, 1)"
    "decode_response [0x02] = Inr (False, 2)" "decode_response [0x03] = Inr (False, 3)"
    "decode_response [0x55] = Inr (False, 0x55)"
    by (simp_all add: one)
  moreover have "length response \<noteq> 1 \<longrightarrow>
      decode_response response =
        Inl (ProtocolError
          [S ''Expected 1-byte response, got '', I (int (length response)), S '' bytes''])"
    by (simp add: decode_response_def)
  moreover have "(\<exists>e. decode_response response = Inl e) \<longleftrightarrow> length response \<noteq> 1"
    by (simp add: decode_response_def Let_def)
  ultimately show ?thesis using one [of b] by simp
qed

theorem decode_response_total_on_one_byte_witness:
  "length ([0x01, 0x00] :: byte list) \<noteq> 1 \<and>
   decode_response [0x01, 0x00] =
     Inl (ProtocolError [S ''Expected 1-byte response, got '', I 2, S '' bytes'']) \<and>
   length ([] :: byte list) \<noteq> 1 \<and>
   decode_response [] =
     Inl (ProtocolError [S ''Expected 1-byte response, got '', I 0, S '' bytes'']) \<and>
   decode_response [0x07] = Inr (False, 7)"
  using decode_response_total_on_one_byte [of 7 "[0x01, 0x00]"]
    decode_response_total_on_one_byte [of 7 "[]"]
  by simp

subsection \<open>Claim C4\<close>

text \<open>
  C4. \<open>encode_move_command\<close> fails with a \<open>ValueError\<close> exactly when \<open>dx\<close> or \<open>dy\<close> is
  outside [-32768, 32767], or \<open>duration_ms\<close> is outside [1, 65535], or \<open>curve\<close> is outside
  [0, 3], and it has no other failure. Each range has its own message, the one of the
  first check that fails, in the order \<open>dx\<close>, \<open>dy\<close>, \<open>duration_ms\<close>, \<open>curve\<close>. The boundary
  values -32768 and 32767 of \<open>dx\<close> and of \<open>dy\<close>, and 1 and 65535 of \<open>duration_ms\<close>, are
  encoded; \<open>dx\<close> = 32768, \<open>duration_ms\<close> = 0, \<open>duration_ms\<close> = 65536 and \<open>curve\<close> = 4 fail.
\<close>

theorem encode_move_command_validation:
  "((\<exists>m. encode_move_command dx dy duration_ms curve = Inl (ValueError m)) \<longleftrightarrow>
      (dx < - 32768 \<or> 32767 < dx \<or> dy < - 32768 \<or> 32767 < dy \<or>
       duration_ms < 1 \<or> 65535 < duration_ms \<or> curve < 0 \<or> 3 < curve)) \<and>
   ((\<exists>e. encode_move_command dx dy duration_ms curve = Inl e) \<longleftrightarrow>
      (\<exists>m. encode_move_command dx dy duration_ms curve = Inl (ValueError m))) \<and>
   (dx < - 32768 \<or> 32767 < dx \<longrightarrow>
      encode_move_command dx dy duration_ms curve =
        Inl (ValueError [S ''dx must be in range [-32768, 32767], got '', I dx])) \<and>
   (- 32768 \<le> dx \<and> dx \<le> 32767 \<and> (dy < - 32768 \<or> 32767 < dy) \<longrightarrow>
      encode_move_command dx dy duration_ms curve =
        Inl (ValueError [S ''dy must be in range [-32768, 32767], got '', I dy])) \<and>
   (- 32768 \<le> dx \<and> dx \<le> 32767 \<and> - 32768 \<le> dy \<and> dy \<le> 32767 \<and>
    (duration_ms < 1 \<or> 65535 < duration_ms) \<longrightarrow>
      encode_move_command dx dy duration_ms curve =
        Inl (ValueError [S ''duration_ms must be in range [1, 65535], got '', I duration_ms])) \<and>
   (- 32768 \<le> dx \<and> dx \<le> 32767 \<and> - 32768 \<le> dy \<and> dy \<le> 32767 \<and>
    1 \<le> duration_ms \<and> duration_ms \<le> 65535 \<and> (curve < 0 \<or> 3 < curve) \<longrightarrow>
      encode_move_command dx dy duration_ms curve =
        Inl (ValueError [S ''curve must be in range [0, 3], got '', I curve])) \<and>
   (\<exists>f. encode_move_command (- 32768) 0 1 0 = Inr f) \<and>
   (\<exists>f. encode_move_command 32767 0 1 0 = Inr f) \<and>
   (\<exists>f. encode_move_command 0 (- 32768) 1 0 = Inr f) \<and>
   (\<exists>f. encode_move_command 0 32767 1 0 = Inr f) \<and>
   (\<exists>f. encode_move_command 0 0 1 0 = Inr f) \<and>
   (\<exists>f. encode_move_command 0 0 65535 0 = Inr f) \<and>
   encode_move_command 32768 0 1 0 =
     Inl (ValueError [S ''dx must be in range [-32768, 32767], got '', I 32768]) \<and>
   encode_move_command 0 0 0 0 =
     Inl (ValueError [S ''duration_ms must be in range [1, 65535], got '', I 0]) \<and>
   encode_move_command 0 0 65536 0 =
     Inl (ValueError [S ''duration_ms must be in range [1, 65535], got '', I 65536]) \<and>
   encode_move_command 0 0 1 4 =
     Inl (ValueError [S ''curve must be in range [0, 3], got '', I 4])"
proof -
  have inv: "(dx < - 32768 \<or> 32767 < dx \<or> dy < - 32768 \<or> 32767 < dy \<or>
       duration_ms < 1 \<or> 65535 < duration_ms \<or> curve < 0 \<or> 3 < curve) \<longleftrightarrow>
       \<not> valid_move dx dy duration_ms curve"
    by (auto simp add: valid_move_def)
  have a: "(\<exists>m. encode_move_command dx dy duration_ms curve = Inl (ValueError m)) \<longleftrightarrow>
      \<not> valid_move dx dy duration_ms curve"
    using encode_valid [of dx dy duration_ms curve] encode_invalid [of dx dy duration_ms curve]
    by auto
  have b: "(\<exists>e. encode_move_command dx dy duration_ms curve = Inl e) \<longleftrightarrow>
      (\<exists>m. encode_move_command dx dy duration_ms curve = Inl (ValueError m))"
  proof (cases "valid_move dx dy duration_ms curve")
    case True
    then show ?thesis by (simp add: encode_valid)
  next
    case False
    from encode_invalid [OF False] show ?thesis by auto
  qed
  have ok: "valid_move x y d c \<Longrightarrow> \<exists>f. encode_move_command x y d c = Inr f" for x y d c
    by (simp add: encode_valid)
  have ok1: "\<exists>f. encode_move_command (- 32768) 0 1 0 = Inr f"
    and ok2: "\<exists>f. encode_move_command 32767 0 1 0 = Inr f"
    and ok3: "\<exists>f. encode_move_command 0 (- 32768) 1 0 = Inr f"
    and ok4: "\<exists>f. encode_move_command 0 32767 1 0 = Inr f"
    and ok5: "\<exists>f. encode_move_command 0 0 1 0 = Inr f"
    and ok6: "\<exists>f. encode_move_command 0 0 65535 0 = Inr f"
    by (rule ok, simp add: valid_move_def)+
  have a': "(\<exists>m. encode_move_command dx dy duration_ms curve = Inl (ValueError m)) \<longleftrightarrow>
      (dx < - 32768 \<or> 32767 < dx \<or> dy < - 32768 \<or> 32767 < dy \<or>
       duration_ms < 1 \<or> 65535 < duration_ms \<or> curve < 0 \<or> 3 < curve)"
    by (simp only: a inv)
  have r1: "dx < - 32768 \<or> 32767 < dx \<longrightarrow>
      encode_move_command dx dy duration_ms curve =
        Inl (ValueError [S ''dx must be in range [-32768, 32767], got '', I dx])"
    by (auto simp add: encode_move_command_def)
  have r2: "- 32768 \<le> dx \<and> dx \<le> 32767 \<and> (dy < - 32768 \<or> 32767 < dy) \<longrightarrow>
      encode_move_command dx dy duration_ms curve =
        Inl (ValueError [S ''dy must be in range [-32768, 32767], got '', I dy])"
    by (auto simp add: encode_move_command_def)
  have r3: "- 32768 \<le> dx \<and> dx \<le> 32767 \<and> - 32768 \<le> dy \<and> dy \<le> 32767 \<and>
    (duration_ms < 1 \<or> 65535 < duration_ms) \<longrightarrow>
      encode_move_command dx dy duration_ms curve =
        Inl (ValueError [S ''duration_ms must be in range [1, 65535], got '', I duration_ms])"
    by (auto simp add: encode_move_command_def)
  have r4: "- 32768 \<le> dx \<and> dx \<le> 32767 \<and> - 32768 \<le> dy \<and> dy \<le> 32767 \<and>
    1 \<le> duration_ms \<and> duration_ms \<le> 65535 \<and> (curve < 0 \<or> 3 < curve) \<longrightarrow>
      encode_move_command dx dy duration_ms curve =
        Inl (ValueError [S ''curve must be in range [0, 3], got '', I curve])"
    by (auto simp add: encode_move_command_def)
  have f1: "encode_move_command 32768 0 1 0 =
     Inl (ValueError [S ''dx must be in range [-32768, 32767], got '', I 32768])"
    and f2: "encode_move_command 0 0 0 0 =
     Inl (ValueError [S ''duration_ms must be in range [1, 65535], got '', I 0])"
    and f3: "encode_move_command 0 0 65536 0 =
     Inl (ValueError [S ''duration_ms must be in range [1, 65535], got '', I 65536])"
    and f4: "encode_move_command 0 0 1 4 =
     Inl (ValueError [S ''curve must be in range [0, 3], got '', I 4])"
    by (simp_all add: encode_move_command_def)
  show ?thesis
    by (intro conjI) (fact a' b r1 r2 r3 r4 ok1 ok2 ok3 ok4 ok5 ok6 f1 f2 f3 f4)+
qed

theorem encode_move_command_validation_witness:
  "((70000::int) < - 32768 \<or> (32767::int) < 70000) \<and>
   encode_move_command 70000 (- 40000) 0 9 =
     Inl (ValueError [S ''dx must be in range [-32768, 32767], got '', I 70000]) \<and>
   encode_move_command 5 (- 40000) 0 9 =
     Inl (ValueError [S ''dy must be in range [-32768, 32767], got '', I (- 40000)]) \<and>
   encode_move_command 5 6 0 9 =
     Inl (ValueError [S ''duration_ms must be in range [1, 65535], got '', I 0]) \<and>
   encode_move_command 5 6 7 9 =
     Inl (ValueError [S ''curve must be in range [0, 3], got '', I 9])"
  using encode_move_command_validation [of 70000 "- 40000" 0 9]
    encode_move_command_validation [of 5 "- 40000" 0 9]
    encode_move_command_validation [of 5 6 0 9]
    encode_move_command_validation [of 5 6 7 9]
  by simp

subsection \<open>Claim C6\<close>

text \<open>
  C6. Round trip: for every valid command, reading bytes 2-3 and 4-5 of its frame as
  signed little-endian 16-bit integers, bytes 6-7 as an unsigned one, and byte 8, gives
  back \<open>dx\<close>, \<open>dy\<close>, \<open>duration_ms\<close> and \<open>curve\<close>, and the last byte of the frame is the
  XOR of its first nine.
\<close>

theorem encode_decode_header_roundtrip:
  "valid_move dx dy duration_ms curve \<longrightarrow>
     (\<exists>frame. encode_move_command dx dy duration_ms curve = Inr frame \<and>
        decode_header frame = (dx, dy, duration_ms, curve) \<and>
        frame ! 9 = xor_first_nine frame)"
proof
  assume v: "valid_move dx dy duration_ms curve"
  have "decode_header (frame_of dx dy duration_ms curve) = (dx, dy, duration_ms, curve)"
    using v by (simp add: decode_header_frame_of valid_move_def sint16 uint16 uint8)
  with encode_valid [OF v] frame_of_nth(8) [of dx dy duration_ms curve]
  show "\<exists>frame. encode_move_command dx dy duration_ms curve = Inr frame \<and>
        decode_header frame = (dx, dy, duration_ms, curve) \<and>
        frame ! 9 = xor_first_nine frame"
    by simp
qed

theorem encode_decode_header_roundtrip_witness:
  "valid_move (- 32768) 32767 65535 3 \<and>
   (\<exists>frame. encode_move_command (- 32768) 32767 65535 3 = Inr frame \<and>
      decode_header frame = (- 32768, 32767, 65535, 3) \<and>
      frame ! 9 = xor_first_nine frame)"
proof -
  have v: "valid_move (- 32768) 32767 65535 3" by (simp add: valid_move_def)
  with encode_decode_header_roundtrip [of "- 32768" 32767 65535 3] show ?thesis by blast
qed

subsection \<open>Claim C7\<close>

text \<open>
  C7. Checksum sensitivity: a frame made by \<open>encode_move_command\<close> is well-formed, and
  flipping any one bit \<open>k\<close> of any one of its first nine bytes \<open>i\<close> gives a frame that is
  not: its last byte is no longer the XOR of its first nine.
\<close>

theorem checksum_detects_single_bit_flip:
  "encode_move_command dx dy duration_ms curve = Inr frame \<and> i < 9 \<and> k < 8 \<longrightarrow>
     well_formed frame \<and> \<not> well_formed (flip_bit_at frame i k) \<and>
     flip_bit_at frame i k ! 9 \<noteq> xor_first_nine (flip_bit_at frame i k)"
proof
  assume a: "encode_move_command dx dy duration_ms curve = Inr frame \<and> i < 9 \<and> k < 8"
  then have f: "frame = frame_of dx dy duration_ms curve" by (simp add: encode_Inr)
  have wf: "well_formed frame" unfolding f by (rule frame_of_well_formed)
  have nwf: "\<not> well_formed (flip_bit_at frame i k)"
    using a by (intro flip_not_well_formed [OF wf]) simp_all
  have "length (flip_bit_at frame i k) = 10"
    using wf by (simp add: flip_bit_at_def well_formed_def)
  with nwf have "flip_bit_at frame i k ! 9 \<noteq> xor_first_nine (flip_bit_at frame i k)"
    by (simp add: well_formed_def)
  with wf nwf show "well_formed frame \<and> \<not> well_formed (flip_bit_at frame i k) \<and>
     flip_bit_at frame i k ! 9 \<noteq> xor_first_nine (flip_bit_at frame i k)"
    by simp
qed

theorem checksum_detects_single_bit_flip_witness:
  "encode_move_command 200 0 500 0 =
     Inr [0xAA, 0x01, 0xC8, 0x00, 0x00, 0x00, 0xF4, 0x01, 0x00, 0x96] \<and>
   (2::nat) < 9 \<and> (3::nat) < 8 \<and>
   flip_bit_at [0xAA, 0x01, 0xC8, 0x00, 0x00, 0x00, 0xF4, 0x01, 0x00, 0x96] 2 3 =
     [0xAA, 0x01, 0xC0, 0x00, 0x00, 0x00, 0xF4, 0x01, 0x00, 0x96] \<and>
   \<not> well_formed [0xAA, 0x01, 0xC0, 0x00, 0x00, 0x00, 0xF4, 0x01, 0x00, 0x96]"
proof -
  have e: "encode_move_command 200 0 500 0 =
     Inr [0xAA, 0x01, 0xC8, 0x00, 0x00, 0x00, 0xF4, 0x01, 0x00, 0x96]"
    by (simp add: encode_move_command_def struct_pack_BBhhHB_def bind_e_def pack_B_def
        pack_h_def pack_H_def START_BYTE_def CMD_MOVE_def xor_checksum_def)
  have fl: "flip_bit_at [0xAA, 0x01, 0xC8, 0x00, 0x00, 0x00, 0xF4, 0x01, 0x00, 0x96] 2 3 =
     [0xAA, 0x01, 0xC0, 0x00, 0x00, 0x00, 0xF4, 0x01, 0x00, 0x96 :: byte]"
    by (simp add: flip_bit_at_def)
  from checksum_detects_single_bit_flip [of 200 0 500 0
      "[0xAA, 0x01, 0xC8, 0x00, 0x00, 0x00, 0xF4, 0x01, 0x00, 0x96]" 2 3] e
  have "\<not> well_formed (flip_bit_at [0xAA, 0x01, 0xC8, 0x00, 0x00, 0x00, 0xF4, 0x01, 0x00, 0x96] 2 3)"
    by simp
  with e fl show ?thesis by simp
qed

section \<open>Properties of the floats\<close>

lemma exponent_unique:
  fixes x :: rat
  assumes "2 powi e \<le> x" "x < 2 powi (e + 1)" "2 powi e' \<le> x" "x < 2 powi (e' + 1)"
  shows "e = e'"
proof -
  have a: "e < e' + 1"
  proof (rule ccontr)
    assume "\<not> e < e' + 1"
    then have "(2::rat) powi (e' + 1) \<le> 2 powi e" by (intro power_int_increasing) auto
    with assms(1,4) show False by simp
  qed
  have b: "e' < e + 1"
  proof (rule ccontr)
    assume "\<not> e' < e + 1"
    then have "(2::rat) powi (e + 1) \<le> 2 powi e'" by (intro power_int_increasing) auto
    with assms(2,3) show False by simp
  qed
  from a b show ?thesis by simp
qed

lemma of_int_two_power: "0 \<le> k \<Longrightarrow> (of_int (2 ^ nat k) :: rat) = 2 powi k"
  by (simp add: power_int_nonneg_exp)

lemma exponent_of_bounds:
  assumes "0 < x"
  shows "2 powi (exponent_of x) \<le> x \<and> x < 2 powi (exponent_of x + 1)"
proof -
  obtain p q where pq: "quotient_of x = (p, q)" by (cases "quotient_of x")
  have q: "0 < q" by (rule quotient_of_denom_pos [OF pq])
  have x: "x = of_int p / of_int q" by (rule quotient_of_div [OF pq])
  have p: "0 < p" using assms q unfolding x by (simp add: zero_less_divide_iff)
  let ?bp = "bitlen p" and ?bq = "bitlen q"
  have bp1: "1 \<le> ?bp" and bq1: "1 \<le> ?bq"
    using p q bitlen_eq_zero_iff [of p] bitlen_eq_zero_iff [of q] bitlen_nonneg [of p]
      bitlen_nonneg [of q] by linarith+
  from bitlen_bounds [OF p] have "2 ^ nat (?bp - 1) \<le> p" "p < 2 ^ nat ?bp" by simp_all
  then have pl: "(2::rat) powi (?bp - 1) \<le> of_int p" and pu: "(of_int p :: rat) < 2 powi ?bp"
    using bp1 of_int_two_power [of "?bp - 1"] of_int_two_power [of ?bp]
    by (metis diff_ge_0_iff_ge of_int_le_iff, metis bitlen_nonneg of_int_less_iff)
  from bitlen_bounds [OF q] have "2 ^ nat (?bq - 1) \<le> q" "q < 2 ^ nat ?bq" by simp_all
  then have ql: "(2::rat) powi (?bq - 1) \<le> of_int q" and qu: "(of_int q :: rat) < 2 powi ?bq"
    using bq1 of_int_two_power [of "?bq - 1"] of_int_two_power [of ?bq]
    by (metis diff_ge_0_iff_ge of_int_le_iff, metis bitlen_nonneg of_int_less_iff)
  have qpos: "(0::rat) < of_int q" using q by simp
  have ppos: "(0::rat) < of_int p" using p by simp
  let ?e = "?bp - ?bq"
  have upper: "x < 2 powi (?e + 1)"
  proof -
    have "x < 2 powi ?bp / of_int q" unfolding x using pu qpos by (simp add: divide_strict_right_mono)
    also have "\<dots> \<le> 2 powi ?bp / 2 powi (?bq - 1)"
      using ql qpos by (intro divide_left_mono mult_pos_pos) simp_all
    also have "\<dots> = 2 powi (?bp - (?bq - 1))" by (simp add: power_int_diff)
    finally show ?thesis by (simp add: algebra_simps)
  qed
  have lower: "2 powi (?e - 1) < x"
  proof -
    have "(2::rat) powi (?e - 1) = 2 powi ((?bp - 1) - ?bq)" by (simp add: algebra_simps)
    also have "\<dots> = 2 powi (?bp - 1) / 2 powi ?bq" by (simp add: power_int_diff)
    also have "\<dots> < 2 powi (?bp - 1) / of_int q"
      using qu qpos by (intro divide_strict_left_mono mult_pos_pos) simp_all
    also have "\<dots> \<le> x" unfolding x using pl qpos by (simp add: divide_right_mono)
    finally show ?thesis .
  qed
  show ?thesis
  proof (cases "2 powi ?e \<le> x")
    case True
    then have "exponent_of x = ?e" by (simp add: exponent_of_def pq Let_def)
    with True upper show ?thesis by simp
  next
    case False
    then have "exponent_of x = ?e - 1" by (simp add: exponent_of_def pq Let_def)
    with False lower show ?thesis by simp
  qed
qed

lemma exponent_of_eq:
  assumes "2 powi e \<le> x" "x < 2 powi (e + 1)"
  shows "exponent_of x = e"
proof -
  have "(0::rat) < 2 powi e" by simp
  then have "0 < x" using assms(1) by linarith
  from exponent_of_bounds [OF this] assms show ?thesis
    using exponent_unique by blast
qed

lemma round_half_even_error: "\<bar>of_int (round_half_even x) - x\<bar> \<le> 1 / 2"
proof -
  have "of_int \<lfloor>x\<rfloor> \<le> x" "x < of_int \<lfloor>x\<rfloor> + 1" by linarith+
  then show ?thesis by (auto simp add: round_half_even_def Let_def)
qed

lemma round_half_even_of_int: "round_half_even (of_int k) = k"
  by (simp add: round_half_even_def Let_def)

lemma to_double_unfold:
  assumes "2 powi e \<le> a" "a < 2 powi (e + 1)" "- 1022 \<le> e"
  shows "to_double a =
     (let y = of_int (round_half_even (a * 2 powi (52 - e))) * 2 powi (e - 52)
      in if 2 ^ 1024 \<le> y then None else Some y)"
proof -
  have "(0::rat) < 2 powi e" by simp
  then have pos: "0 < a" using assms(1) by linarith
  have ex: "exponent_of a = e" by (rule exponent_of_eq [OF assms(1,2)])
  have "(2::rat) powi (52 - e) = 2 powi (- (e - 52))" by simp
  also have "\<dots> = inverse (2 powi (e - 52))" by (rule power_int_minus)
  finally have inv: "a / 2 powi (e - 52) = a * 2 powi (52 - e)" by (simp add: divide_inverse)
  have mx: "max e (- 1022) = e" using assms(3) by simp
  show ?thesis
    using pos by (simp add: to_double_def ex mx inv Let_def del: power_int_numeral_neg_numeral)
qed

lemma to_double_of_int_exact:
  assumes "0 < n" "n < 2 ^ 53"
  shows "to_double (of_int n) = Some (of_int n)"
proof -
  let ?x = "of_int n :: rat"
  let ?e = "exponent_of ?x"
  have pos: "0 < ?x" using assms(1) by simp
  from exponent_of_bounds [OF pos] have lo: "2 powi ?e \<le> ?x" and hi: "?x < 2 powi (?e + 1)"
    by simp_all
  have "(2::rat) powi 0 \<le> ?x" using assms(1) by simp
  with hi have "(2::rat) powi 0 < 2 powi (?e + 1)" by linarith
  then have e0: "0 \<le> ?e"
    using power_int_increasing [of "?e + 1" 0 "2::rat"] by (cases "0 \<le> ?e") auto
  have "?x < 2 powi 53" using assms(2) by (simp add: of_int_less_iff [of n "2 ^ 53", symmetric])
  with lo have "(2::rat) powi ?e < 2 powi 53" by linarith
  then have e52: "?e \<le> 52"
    using power_int_increasing [of 53 ?e "2::rat"] by (cases "?e \<le> 52") auto
  have up: "(2::rat) powi (52 - ?e) = of_int (2 ^ nat (52 - ?e))"
    using e52 by (simp add: power_int_nonneg_exp)
  have r: "round_half_even (?x * 2 powi (52 - ?e)) = n * 2 ^ nat (52 - ?e)"
    unfolding up of_int_mult [symmetric] by (rule round_half_even_of_int)
  have "(2::rat) powi (52 - ?e) * 2 powi (?e - 52) = 2 powi ((52 - ?e) + (?e - 52))"
    by (rule power_int_add [symmetric]) simp
  then have c: "(2::rat) powi (52 - ?e) * 2 powi (?e - 52) = 1" by simp
  have "(of_int (n * 2 ^ nat (52 - ?e)) :: rat) = ?x * 2 powi (52 - ?e)"
    by (simp only: up of_int_mult)
  then have "of_int (n * 2 ^ nat (52 - ?e)) * 2 powi (?e - 52) =
      ?x * (2 powi (52 - ?e) * 2 powi (?e - 52))"
    by (simp only: mult.assoc)
  then have y: "of_int (n * 2 ^ nat (52 - ?e)) * 2 powi (?e - 52) = ?x"
    by (simp only: c mult_1_right)
  have "?x < 2 ^ 1024"
  proof -
    have "?x < 2 powi 53" by fact
    also have "\<dots> \<le> 2 powi 1024" by (intro power_int_increasing) simp_all
    finally show ?thesis by simp
  qed
  then have small: "\<not> 2 ^ 1024 \<le> ?x" by simp
  have "- 1022 \<le> ?e" using e0 by simp
  from to_double_unfold [OF lo hi this] show ?thesis
    by (simp only: r y Let_def small if_False)
qed

lemma to_double_error:
  assumes "2 powi (- 1022) \<le> x" "to_double x = Some t"
  shows "\<bar>t - x\<bar> \<le> x / 2 ^ 53"
proof -
  have "(0::rat) < 2 powi (- 1022)" by (rule zero_less_power_int) simp
  then have pos: "0 < x" using assms(1) by linarith
  let ?e = "exponent_of x"
  from exponent_of_bounds [OF pos] have lo: "2 powi ?e \<le> x" and hi: "x < 2 powi (?e + 1)"
    by simp_all
  from assms(1) hi have "(2::rat) powi (- 1022) < 2 powi (?e + 1)" by linarith
  then have e: "- 1022 \<le> ?e"
    using power_int_increasing [of "?e + 1" "- 1022" "2::rat"] by (cases "- 1022 \<le> ?e") auto
  let ?u = "(2::rat) powi (?e - 52)"
  let ?m = "round_half_even (x * 2 powi (52 - ?e))"
  have upos: "0 < ?u" by (rule zero_less_power_int) simp
  from to_double_unfold [OF lo hi e] assms(2) have t: "t = of_int ?m * ?u"
    by (simp add: Let_def split: if_splits)
  have "(2::rat) powi (52 - ?e) * ?u = 2 powi ((52 - ?e) + (?e - 52))"
    by (rule power_int_add [symmetric]) simp
  then have c: "(2::rat) powi (52 - ?e) * ?u = 1" by simp
  have "t - x = (of_int ?m - x * 2 powi (52 - ?e)) * ?u"
    unfolding t using c by (simp add: algebra_simps)
  then have "\<bar>t - x\<bar> = \<bar>of_int ?m - x * 2 powi (52 - ?e)\<bar> * ?u"
    using upos by (simp add: abs_mult)
  also have "\<dots> \<le> (1 / 2) * ?u"
    using round_half_even_error [of "x * 2 powi (52 - ?e)"] upos
    by (intro mult_right_mono) simp_all
  also have "\<dots> = 2 powi ?e / 2 ^ 53"
  proof -
    have "(2::rat) powi (?e - 52) = 2 powi ?e / 2 powi 52" by (simp add: power_int_diff)
    then show ?thesis by simp
  qed
  also have "\<dots> \<le> x / 2 ^ 53" using lo by (simp add: divide_right_mono)
  finally show ?thesis .
qed

lemma to_double_in_range:
  assumes "2 powi (- 1022) \<le> x" "x < 2 ^ 1023"
  shows "\<exists>t. to_double x = Some t"
proof -
  have "(0::rat) < 2 powi (- 1022)" by (rule zero_less_power_int) simp
  then have pos: "0 < x" using assms(1) by linarith
  let ?e = "exponent_of x"
  from exponent_of_bounds [OF pos] have lo: "2 powi ?e \<le> x" and hi: "x < 2 powi (?e + 1)"
    by simp_all
  from assms(1) hi have "(2::rat) powi (- 1022) < 2 powi (?e + 1)" by linarith
  then have e: "- 1022 \<le> ?e"
    using power_int_increasing [of "?e + 1" "- 1022" "2::rat"] by (cases "- 1022 \<le> ?e") auto
  have "x < 2 powi 1023" using assms(2) by simp
  with lo have "(2::rat) powi ?e < 2 powi 1023" by linarith
  then have e': "?e \<le> 1022"
    using power_int_increasing [of 1023 ?e "2::rat"] by (cases "?e \<le> 1022") auto
  let ?u = "(2::rat) powi (?e - 52)"
  let ?m = "round_half_even (x * 2 powi (52 - ?e))"
  have upos: "0 < ?u" by (rule zero_less_power_int) simp
  have "(2::rat) powi (52 - ?e) * ?u = 2 powi ((52 - ?e) + (?e - 52))"
    by (rule power_int_add [symmetric]) simp
  then have c: "(2::rat) powi (52 - ?e) * ?u = 1" by simp
  have "of_int ?m \<le> x * 2 powi (52 - ?e) + 1 / 2"
    using round_half_even_error [of "x * 2 powi (52 - ?e)"] by linarith
  then have "of_int ?m * ?u \<le> (x * 2 powi (52 - ?e) + 1 / 2) * ?u"
    using upos by (intro mult_right_mono) simp_all
  also have "\<dots> = x + ?u / 2" using c by (simp add: algebra_simps)
  also have "\<dots> < 2 powi 1023 + 2 powi 1023"
  proof -
    have "?u \<le> 2 powi 1023" using e' by (intro power_int_increasing) simp_all
    moreover have "?u / 2 < ?u" using upos by simp
    ultimately show ?thesis using \<open>x < 2 powi 1023\<close> by linarith
  qed
  also have "\<dots> = 2 powi 1024"
  proof -
    have "(2::rat) powi 1024 = 2 powi (1023 + 1)" by simp
    also have "\<dots> = 2 powi 1023 * 2" by (rule power_int_add_1) simp
    finally show ?thesis by simp
  qed
  finally have "\<not> 2 ^ 1024 \<le> of_int ?m * ?u" by simp
  with to_double_unfold [OF lo hi e] show ?thesis by (simp add: Let_def)
qed

lemma floor_rat_numeral_div: "\<lfloor>(numeral a :: rat) / numeral b\<rfloor> = numeral a div numeral b"
  using floor_divide_of_int_eq [of "numeral a" "numeral b", where ?'a = rat] by simp

lemma float_of_int_exact:
  assumes "0 < n" "n < 2 ^ 53"
  shows "float_of_int n = Inr (of_int n)"
  by (simp add: float_of_int_def to_double_of_int_exact [OF assms])

lemma int_truediv_1000_accurate:
  assumes "0 < n" "n < 2 ^ 53"
  shows "\<exists>t. int_truediv_1000 n = Inr t \<and> \<bar>t * 1000 - of_int n\<bar> \<le> of_int n / 2 ^ 53"
proof -
  let ?x = "of_int n / 1000 :: rat"
  have "(2::rat) powi (- 1022) \<le> 2 powi (- 10)" by (intro power_int_increasing) simp_all
  also have "\<dots> \<le> 1 / 1000" by simp
  also have "\<dots> \<le> ?x" using assms(1) by (simp add: divide_right_mono)
  finally have lo: "2 powi (- 1022) \<le> ?x" .
  have "?x \<le> of_int n" using assms(1) by simp
  also have "\<dots> < 2 powi 53"
    using assms(2) by (simp add: of_int_less_iff [of n "2 ^ 53", symmetric])
  also have "\<dots> \<le> 2 powi 1023" by (intro power_int_increasing) simp_all
  finally have hi: "?x < 2 ^ 1023" by simp
  from to_double_in_range [OF lo hi] obtain t where t: "to_double ?x = Some t" by blast
  from to_double_error [OF lo t] have "\<bar>t - ?x\<bar> * 1000 \<le> ?x / 2 ^ 53 * 1000" by simp
  moreover have "\<bar>t - ?x\<bar> * 1000 = \<bar>t * 1000 - of_int n\<bar>"
  proof -
    have "\<bar>t * 1000 - of_int n\<bar> = \<bar>(t - ?x) * 1000\<bar>" by (simp add: algebra_simps)
    also have "\<dots> = \<bar>t - ?x\<bar> * \<bar>1000\<bar>" by (rule abs_mult)
    also have "\<dots> = \<bar>t - ?x\<bar> * 1000" by simp
    finally show ?thesis by simp
  qed
  moreover have "?x / 2 ^ 53 * 1000 = of_int n / 2 ^ 53" by simp
  ultimately have "\<bar>t * 1000 - of_int n\<bar> \<le> of_int n / 2 ^ 53" by simp
  moreover have "int_truediv_1000 n = Inr t"
    by (simp add: int_truediv_1000_def bind_e_def float_of_int_exact [OF assms] t)
  ultimately show ?thesis by blast
qed

lemma int_truediv_1000_1500: "int_truediv_1000 1500 = Inr (3 / 2)"
proof -
  have f: "float_of_int 1500 = Inr 1500"
    using float_of_int_exact [of 1500] by simp
  have "to_double (3 / 2) = Some (3 / 2)"
    by (subst to_double_unfold [of 0]) (simp_all add: round_half_even_def Let_def floor_rat_numeral_div)
  then show ?thesis by (simp add: int_truediv_1000_def bind_e_def f)
qed

lemma int_truediv_1000_1001:
  "int_truediv_1000 1001 = Inr (2254051613498933 / 2251799813685248)"
proof -
  have f: "float_of_int 1001 = Inr 1001"
    using float_of_int_exact [of 1001] by simp
  have "to_double (1001 / 1000) = Some (2254051613498933 / 2251799813685248)"
    by (subst to_double_unfold [of 0]) (simp_all add: round_half_even_def Let_def floor_rat_numeral_div)
  then show ?thesis by (simp add: int_truediv_1000_def bind_e_def f)
qed

lemma int_truediv_1000_overflow:
  "int_truediv_1000 (2 ^ 1024) = Inl (OverflowError [S ''int too large to convert to float''])"
proof -
  have "to_double (2 ^ 1024) = None"
    by (subst to_double_unfold [of 1024]) (simp_all add: round_half_even_def Let_def floor_rat_numeral_div)
  then have "to_double (of_int (2 ^ 1024)) = None" by simp
  then show ?thesis by (simp add: int_truediv_1000_def bind_e_def float_of_int_def)
qed

lemma round_half_even_ge:
  assumes "of_int k \<le> x"
  shows "k \<le> round_half_even x"
proof -
  have "k \<le> \<lfloor>x\<rfloor>" using assms by (simp add: le_floor_iff)
  then show ?thesis by (auto simp add: round_half_even_def Let_def)
qed

lemma to_double_abs:
  "to_double x = (case to_double \<bar>x\<bar> of None \<Rightarrow> None | Some y \<Rightarrow> Some (sgn x * y))"
  by (cases "x = 0") (simp_all add: to_double_def Let_def)

lemma to_double_below:
  assumes "0 < a" "to_double a = Some y"
  shows "y < 2 ^ 1024"
  using assms by (simp add: to_double_def Let_def split: if_splits)

lemma to_double_ge_one:
  assumes "1 \<le> a" "to_double a = Some y"
  shows "1 \<le> y"
proof -
  have pos: "0 < a" using assms(1) by simp
  let ?e = "exponent_of a"
  from exponent_of_bounds [OF pos] have lo: "2 powi ?e \<le> a" and hi: "a < 2 powi (?e + 1)"
    by simp_all
  have "(2::rat) powi 0 \<le> a" using assms(1) by simp
  with hi have "(2::rat) powi 0 < 2 powi (?e + 1)" by linarith
  then have e0: "0 \<le> ?e"
    using power_int_increasing [of "?e + 1" 0 "2::rat"] by (cases "0 \<le> ?e") auto
  then have e: "- 1022 \<le> ?e" by simp
  let ?u = "(2::rat) powi (?e - 52)"
  let ?m = "round_half_even (a * 2 powi (52 - ?e))"
  have upos: "0 < ?u" by (rule zero_less_power_int) simp
  from to_double_unfold [OF lo hi e] assms(2) have y: "y = of_int ?m * ?u"
    by (simp add: Let_def split: if_splits)
  have "(2::rat) powi ?e * 2 powi (52 - ?e) = 2 powi (?e + (52 - ?e))"
    by (rule power_int_add [symmetric]) simp
  then have "(2::rat) powi ?e * 2 powi (52 - ?e) = of_int (2 ^ 52)" by simp
  moreover have "2 powi ?e * 2 powi (52 - ?e) \<le> a * 2 powi (52 - ?e)"
    using lo by (intro mult_right_mono) simp_all
  ultimately have "of_int (2 ^ 52) \<le> a * 2 powi (52 - ?e)" by simp
  then have "2 ^ 52 \<le> ?m" by (rule round_half_even_ge)
  then have "(of_int (2 ^ 52) :: rat) \<le> of_int ?m" by (simp only: of_int_le_iff)
  then have "of_int (2 ^ 52) * ?u \<le> of_int ?m * ?u"
    using upos by (intro mult_right_mono) simp_all
  moreover have "(of_int (2 ^ 52) :: rat) * ?u = 2 powi ?e"
  proof -
    have "(2::rat) powi 52 * 2 powi (?e - 52) = 2 powi (52 + (?e - 52))"
      by (rule power_int_add [symmetric]) simp
    then show ?thesis by simp
  qed
  moreover have "(1::rat) \<le> 2 powi ?e" using e0 by (intro one_le_power_int) simp_all
  ultimately show ?thesis unfolding y by linarith
qed

lemma float_division_in_range:
  assumes "float_of_int n = Inr x"
  shows "\<exists>t. to_double (x / 1000) = Some t"
proof (cases "n = 0")
  case True
  with assms have "x = 0" by (simp add: float_of_int_def to_double_def)
  then show ?thesis by (simp add: to_double_def)
next
  case False
  let ?a = "\<bar>of_int n\<bar> :: rat"
  have a1: "1 \<le> ?a" using False by (simp add: of_int_abs [symmetric] del: of_int_abs)
  from assms have "to_double (of_int n) = Some x"
    by (simp add: float_of_int_def split: option.splits)
  then obtain y where y: "to_double ?a = Some y" and x: "x = sgn (of_int n) * y"
    by (subst (asm) to_double_abs) (auto split: option.splits)
  have y1: "1 \<le> y" by (rule to_double_ge_one [OF a1 y])
  have y2: "y < 2 ^ 1024" using a1 by (intro to_double_below [OF _ y]) simp
  have ax: "\<bar>x / 1000\<bar> = y / 1000"
    unfolding x using False y1 by (simp add: abs_mult)
  have "(2::rat) powi (- 1022) \<le> 2 powi (- 10)" by (intro power_int_increasing) simp_all
  also have "\<dots> \<le> 1 / 1000" by simp
  also have "\<dots> \<le> y / 1000" using y1 by (simp add: divide_right_mono)
  finally have lo: "2 powi (- 1022) \<le> \<bar>x / 1000\<bar>" unfolding ax .
  have "y / 1000 < 2 ^ 1024 / 1000" using y2 by (simp add: divide_strict_right_mono)
  also have "\<dots> \<le> 2 ^ 1024 / 2" by (intro divide_left_mono) simp_all
  also have "\<dots> = 2 ^ 1023" by simp
  finally have hi: "\<bar>x / 1000\<bar> < 2 ^ 1023" unfolding ax .
  from to_double_in_range [OF lo hi] show ?thesis
    by (subst to_double_abs) auto
qed

lemma int_truediv_1000_overflows:
  "int_truediv_1000 n = Inl e \<longleftrightarrow>
     float_of_int n = Inl e \<and> e = OverflowError [S ''int too large to convert to float'']"
proof (cases "float_of_int n")
  case (Inl e')
  then have "e' = OverflowError [S ''int too large to convert to float'']"
    by (simp add: float_of_int_def split: option.splits)
  with Inl show ?thesis by (auto simp add: int_truediv_1000_def bind_e_def)
next
  case (Inr x)
  from float_division_in_range [OF Inr] obtain t where "to_double (x / 1000) = Some t" by blast
  with Inr show ?thesis by (simp add: int_truediv_1000_def bind_e_def)
qed

section \<open>Properties of the client\<close>

lemma exchange_fst: "fst (exchange sp command t) = take 1 (next_reply sp)"
  by (simp add: exchange_def serial_read_def serial_flush_def serial_write_def
      reset_input_buffer_def next_reply_def Let_def split: list.split)

lemma exchange_snd:
  "written (snd (exchange sp command t)) = written sp @ [command]"
  "waits (snd (exchange sp command t)) = waits sp @ [t]"
  "is_open (snd (exchange sp command t)) = is_open sp"
  "timeout (snd (exchange sp command t)) = t"
  by (simp_all add: exchange_def serial_read_def serial_flush_def serial_write_def
      reset_input_buffer_def Let_def split: list.split)

lemma exchange_pair: "exchange sp command t = (take 1 (next_reply sp), snd (exchange sp command t))"
  by (metis exchange_fst prod.collapse)

lemma decode_one: "decode_response [b] = Inr (b = 0, uint b)"
  by (simp add: decode_response_def ACK_OK_def Let_def uint_0_iff)

lemma uint_eq_one: "uint b = NAK_CHECKSUM \<longleftrightarrow> b = 1" for b :: byte
  by (metis NAK_CHECKSUM_def uint_1 word_uint_eq_iff)

declare send_attempts.simps(2) [simp del]

lemma send_attempts_silent:
  assumes "next_reply sp = []"
  shows "send_attempts sp command t m (a # later) =
     (Inl (TimeoutError [S ''Arduino did not respond within '', R t, S ''s'']),
      snd (exchange sp command t))"
  using assms by (subst send_attempts.simps(2), subst exchange_pair) simp

lemma send_attempts_reply:
  assumes "next_reply sp = b # bs"
  shows "send_attempts sp command t m (a # later) =
     (if b = 0 then (Inr (), snd (exchange sp command t))
      else if b = 1 \<and> a < m then send_attempts (snd (exchange sp command t)) command t m later
      else (Inl (ProtocolError (S ''Movement failed: '' # response_code_to_string (uint b))),
            snd (exchange sp command t)))"
  using assms
  by (subst send_attempts.simps(2), subst exchange_pair) (simp add: decode_one uint_eq_one)

lemma send_attempts_effect:
  "\<exists>n. n \<le> length attempts \<and>
     written (snd (send_attempts sp command t m attempts)) = written sp @ replicate n command \<and>
     waits (snd (send_attempts sp command t m attempts)) = waits sp @ replicate n t \<and>
     is_open (snd (send_attempts sp command t m attempts)) = is_open sp"
proof (induction attempts arbitrary: sp)
  case Nil
  show ?case by simp
next
  case (Cons a later)
  let ?sp' = "snd (exchange sp command t)"
  show ?case
  proof (cases "next_reply sp")
    case Nil
    have "written ?sp' = written sp @ replicate 1 command \<and> waits ?sp' = waits sp @ replicate 1 t
        \<and> is_open ?sp' = is_open sp"
      by (simp add: exchange_snd)
    then show ?thesis
      unfolding send_attempts_silent [OF Nil] by (intro exI [of _ 1]) simp
  next
    case (Cons b bs)
    have one: "written ?sp' = written sp @ replicate 1 command \<and> waits ?sp' = waits sp @ replicate 1 t
        \<and> is_open ?sp' = is_open sp"
      by (simp add: exchange_snd)
    show ?thesis
    proof (cases "b \<noteq> 0 \<and> b = 1 \<and> a < m")
      case True
      from Cons.IH [of ?sp'] obtain n where n: "n \<le> length later"
        "written (snd (send_attempts ?sp' command t m later)) = written ?sp' @ replicate n command"
        "waits (snd (send_attempts ?sp' command t m later)) = waits ?sp' @ replicate n t"
        "is_open (snd (send_attempts ?sp' command t m later)) = is_open ?sp'"
        by blast
      have eq: "send_attempts sp command t m (a # later) = send_attempts ?sp' command t m later"
        using True by (simp add: send_attempts_reply [OF Cons])
      show ?thesis
        unfolding eq using n
        by (intro exI [of _ "Suc n"]) (simp add: exchange_snd replicate_app_Cons_same)
    next
      case False
      then have "snd (send_attempts sp command t m (a # later)) = ?sp'"
        by (auto simp add: send_attempts_reply [OF Cons])
      then show ?thesis using one by (intro exI [of _ 1]) simp
    qed
  qed
qed

lemma send_attempts_result:
  "fst (send_attempts sp command t m attempts) = Inr () \<or>
   fst (send_attempts sp command t m attempts) =
     Inl (TimeoutError [S ''Arduino did not respond within '', R t, S ''s'']) \<or>
   (\<exists>msg. fst (send_attempts sp command t m attempts) = Inl (ProtocolError msg))"
proof (induction attempts arbitrary: sp)
  case Nil
  show ?case by simp
next
  case (Cons a later)
  show ?case
  proof (cases "next_reply sp")
    case Nil
    then show ?thesis by (simp add: send_attempts_silent)
  next
    case (Cons b bs)
    from Cons.IH [of "snd (exchange sp command t)"] show ?thesis
      by (simp add: send_attempts_reply [OF Cons])
  qed
qed

lemma validate_curve_cases:
  "validate_curve (Member c) = Inr c"
  "validate_curve (Plain 0) = Inr LINEAR"
  "validate_curve (Plain 1) = Inr EASE_IN"
  "validate_curve (Plain 2) = Inr EASE_OUT"
  "validate_curve (Plain 3) = Inr EASE_IN_OUT"
  "v < 0 \<or> 3 < v \<Longrightarrow> validate_curve (Plain v) = Inl (ValueError [S ''Invalid curve value: '', I v])"
  by (auto simp add: validate_curve_def Curve_of_value_def)

lemma validate_curve_error:
  "validate_curve c = Inl e \<Longrightarrow> \<exists>m. e = ValueError m"
  by (auto simp add: validate_curve_def Curve_of_value_def Curve_of_other_def
      split: curve_arg.splits if_splits)


lemma int_truediv_1000_error:
  "int_truediv_1000 n = Inl e \<Longrightarrow> \<exists>m. e = OverflowError m"
  by (auto simp add: int_truediv_1000_def float_of_int_def bind_e_def split: option.splits)

text \<open>\<open>move\<close> on a session that is not connected.\<close>

lemma move_not_connected:
  assumes "ensure_connected (h, self) = Inl e"
  shows "move (h, self) dx dy duration_ms curve = (Inl e, (h, self))"
  using assms by (simp add: move_def)

lemma ensure_connected_iff:
  "ensure_connected (h, self) = Inr () \<longleftrightarrow> (\<exists>r. serial self = Some r \<and> is_open (h r))"
  by (auto simp add: ensure_connected_def split: option.splits)

lemma ensure_connected_error:
  "ensure_connected w = Inl e \<Longrightarrow> e = ConnectionError [S ''Not connected to Arduino'']"
  by (auto simp add: ensure_connected_def split: option.splits prod.splits if_splits)

text \<open>\<open>move\<close> on a connected session, by the stage at which it ends.\<close>

lemma move_invalid_curve:
  assumes "ensure_connected (h, self) = Inr ()" "validate_curve curve = Inl e"
  shows "move (h, self) dx dy duration_ms curve = (Inl e, (h, self))"
  using assms by (simp add: move_def)

lemma move_invalid_args:
  assumes "ensure_connected (h, self) = Inr ()" "validate_curve curve = Inr c"
    "encode_move_command dx dy duration_ms (int_of_Curve c) = Inl e"
  shows "move (h, self) dx dy duration_ms curve = (Inl e, (h, self))"
  using assms by (simp add: move_def)

lemma move_overflow:
  assumes "ensure_connected (h, self) = Inr ()" "validate_curve curve = Inr c"
    "encode_move_command dx dy duration_ms (int_of_Curve c) = Inr command"
    "int_truediv_1000 (duration_ms + timeout_buffer_ms self) = Inl e"
  shows "move (h, self) dx dy duration_ms curve = (Inl e, (h, self))"
  using assms by (simp add: move_def)

lemma move_sends:
  assumes "serial self = Some r" "is_open (h r)" "validate_curve curve = Inr c"
    "encode_move_command dx dy duration_ms (int_of_Curve c) = Inr command"
    "int_truediv_1000 (duration_ms + timeout_buffer_ms self) = Inr t"
  shows "move (h, self) dx dy duration_ms curve =
     (fst (send_attempts (h r) command t (MAX_RETRIES self) [0 .. MAX_RETRIES self]),
      (h(r := snd (send_attempts (h r) command t (MAX_RETRIES self) [0 .. MAX_RETRIES self])),
       self))"
  using assms
  by (simp add: move_def ensure_connected_def Let_def split: prod.splits)

text \<open>Every call of \<open>move\<close> is one of these five.\<close>

lemma move_cases:
  obtains
    (closed) e where "ensure_connected (h, self) = Inl e"
      "move (h, self) dx dy duration_ms curve = (Inl e, (h, self))"
  | (curve) e where "ensure_connected (h, self) = Inr ()" "validate_curve curve = Inl e"
      "move (h, self) dx dy duration_ms curve = (Inl e, (h, self))"
  | (args) c m where "ensure_connected (h, self) = Inr ()" "validate_curve curve = Inr c"
      "encode_move_command dx dy duration_ms (int_of_Curve c) = Inl (ValueError m)"
      "move (h, self) dx dy duration_ms curve = (Inl (ValueError m), (h, self))"
  | (overflow) c command m where "ensure_connected (h, self) = Inr ()"
      "validate_curve curve = Inr c"
      "encode_move_command dx dy duration_ms (int_of_Curve c) = Inr command"
      "int_truediv_1000 (duration_ms + timeout_buffer_ms self) = Inl (OverflowError m)"
      "move (h, self) dx dy duration_ms curve = (Inl (OverflowError m), (h, self))"
  | (sends) r c command t where "serial self = Some r" "is_open (h r)"
      "validate_curve curve = Inr c"
      "encode_move_command dx dy duration_ms (int_of_Curve c) = Inr command"
      "int_truediv_1000 (duration_ms + timeout_buffer_ms self) = Inr t"
      "move (h, self) dx dy duration_ms curve =
         (fst (send_attempts (h r) command t (MAX_RETRIES self) [0 .. MAX_RETRIES self]),
          (h(r := snd (send_attempts (h r) command t (MAX_RETRIES self)
                         [0 .. MAX_RETRIES self])), self))"
proof (cases "ensure_connected (h, self)")
  case (Inl e)
  then show ?thesis using closed move_not_connected by blast
next
  case (Inr u)
  then have conn: "ensure_connected (h, self) = Inr ()" by simp
  then obtain r where r: "serial self = Some r" "is_open (h r)"
    by (auto simp add: ensure_connected_iff)
  show ?thesis
  proof (cases "validate_curve curve")
    case (Inl e)
    then show ?thesis using curve conn move_invalid_curve by blast
  next
    case (Inr c)
    note vc = this
    show ?thesis
    proof (cases "encode_move_command dx dy duration_ms (int_of_Curve c)")
      case (Inl e)
      have "\<not> valid_move dx dy duration_ms (int_of_Curve c)"
        using Inl encode_valid by fastforce
      from encode_invalid [OF this] Inl obtain m where "e = ValueError m" by auto
      with Inl show ?thesis using args conn vc move_invalid_args by blast
    next
      case (Inr command)
      note enc = this
      show ?thesis
      proof (cases "int_truediv_1000 (duration_ms + timeout_buffer_ms self)")
        case (Inl e)
        from int_truediv_1000_error [OF Inl] obtain m where "e = OverflowError m" by blast
        with Inl show ?thesis using overflow conn vc enc move_overflow by blast
      next
        case (Inr t)
        show ?thesis using sends r vc enc Inr move_sends by blast
      qed
    qed
  qed
qed

text \<open>The command (200, 0, 500, LINEAR) on a session with the default buffer.\<close>

lemma encode_200_0_500_0:
  "encode_move_command 200 0 500 0 =
     Inr [0xAA, 0x01, 0xC8, 0x00, 0x00, 0x00, 0xF4, 0x01, 0x00, 0x96]"
  by (simp add: encode_move_command_def struct_pack_BBhhHB_def bind_e_def pack_B_def
      pack_h_def pack_H_def START_BYTE_def CMD_MOVE_def xor_checksum_def)

lemma move_200_0_500:
  assumes "serial self = Some r" "is_open (h r)" "timeout_buffer_ms self = 1000"
  shows "move (h, self) 200 0 500 (Member LINEAR) =
     (fst (send_attempts (h r) [0xAA, 0x01, 0xC8, 0x00, 0x00, 0x00, 0xF4, 0x01, 0x00, 0x96]
             (3 / 2) (MAX_RETRIES self) [0 .. MAX_RETRIES self]),
      (h(r := snd (send_attempts (h r) [0xAA, 0x01, 0xC8, 0x00, 0x00, 0x00, 0xF4, 0x01, 0x00, 0x96]
             (3 / 2) (MAX_RETRIES self) [0 .. MAX_RETRIES self])), self))"
proof -
  have e: "encode_move_command 200 0 500 (int_of_Curve LINEAR) =
     Inr [0xAA, 0x01, 0xC8, 0x00, 0x00, 0x00, 0xF4, 0x01, 0x00, 0x96]"
    using encode_200_0_500_0 by simp
  have t: "int_truediv_1000 (500 + timeout_buffer_ms self) = Inr (3 / 2)"
    using int_truediv_1000_1500 by (simp add: assms(3))
  show ?thesis
    using assms(1,2) validate_curve_cases(1) [of LINEAR] e t by (rule move_sends)
qed

lemma move_200_0_500_connected_to:
  "move (connected_to script) 200 0 500 (Member LINEAR) =
     (fst (send_attempts (fresh_port script)
             [0xAA, 0x01, 0xC8, 0x00, 0x00, 0x00, 0xF4, 0x01, 0x00, 0x96] (3 / 2) 1 [0 .. 1]),
      ((\<lambda>_. fresh_port [])(0 := snd (send_attempts (fresh_port script)
             [0xAA, 0x01, 0xC8, 0x00, 0x00, 0x00, 0xF4, 0x01, 0x00, 0x96] (3 / 2) 1 [0 .. 1])),
       fresh_session))"
proof -
  have "serial fresh_session = Some 0" "timeout_buffer_ms fresh_session = 1000"
    "MAX_RETRIES fresh_session = 1" "is_open (fresh_port script)"
    by (simp_all add: fresh_session_def fresh_port_def)
  then show ?thesis
    unfolding connected_to_def
    using move_200_0_500 [of fresh_session 0 "(\<lambda>_. fresh_port [])(0 := fresh_port script)"]
    by simp
qed

lemma move_200_0_500_retries:
  "move (fst (connected_to script), (snd (connected_to script))\<lparr>MAX_RETRIES := 5\<rparr>)
       200 0 500 (Member LINEAR) =
     (fst (send_attempts (fresh_port script)
             [0xAA, 0x01, 0xC8, 0x00, 0x00, 0x00, 0xF4, 0x01, 0x00, 0x96] (3 / 2) 5 [0 .. 5]),
      ((\<lambda>_. fresh_port [])(0 := snd (send_attempts (fresh_port script)
             [0xAA, 0x01, 0xC8, 0x00, 0x00, 0x00, 0xF4, 0x01, 0x00, 0x96] (3 / 2) 5 [0 .. 5])),
       fresh_session\<lparr>MAX_RETRIES := 5\<rparr>))"
proof -
  have "serial (fresh_session\<lparr>MAX_RETRIES := 5\<rparr>) = Some 0"
    "timeout_buffer_ms (fresh_session\<lparr>MAX_RETRIES := 5\<rparr>) = 1000"
    "is_open (fresh_port script)"
    by (simp_all add: fresh_session_def fresh_port_def)
  then show ?thesis
    unfolding connected_to_def
    using move_200_0_500 [of "fresh_session\<lparr>MAX_RETRIES := 5\<rparr>" 0
        "(\<lambda>_. fresh_port [])(0 := fresh_port script)"]
    by simp
qed

subsection \<open>Claim C2\<close>










subsection \<open>Claim C5\<close>

lemma connected_to_init:
  "ArduinoMouse_init (\<lambda>_. fresh_port []) 0 (Inr script) ''/dev/ttyACM0'' DEFAULT_BAUDRATE
     DEFAULT_TIMEOUT_BUFFER_MS = Inr (connected_to script)"
  by (simp add: ArduinoMouse_init_def connected_to_def fresh_port_def fresh_session_def
      DEFAULT_BAUDRATE_def DEFAULT_TIMEOUT_BUFFER_MS_def)

lemma move_waits:
  assumes "int_truediv_1000 (duration_ms + timeout_buffer_ms self) = Inr t"
    "move (h, self) dx dy duration_ms curve = (result, (h', self'))" "serial self = Some r"
  shows "\<exists>n. waits (h' r) = waits (h r) @ replicate n t \<and>
         length (written (h' r)) = length (written (h r)) + n"
proof (cases rule: move_cases [of h self dx dy duration_ms curve])
  case (closed e)
  with assms show ?thesis by simp
next
  case (curve e)
  with assms show ?thesis by simp
next
  case (args c m)
  with assms show ?thesis by simp
next
  case (overflow c command m)
  with assms show ?thesis by simp
next
  case (sends r' c command t')
  let ?sp = "snd (send_attempts (h r) command t (MAX_RETRIES self) [0 .. MAX_RETRIES self])"
  from sends(1) assms(3) have r: "r' = r" by simp
  from sends(5) assms(1) have t: "t' = t" by simp
  from sends(6) assms(2) have "h' = h(r := ?sp)" unfolding r t by simp
  then have h': "h' r = ?sp" by simp
  from send_attempts_effect [of "[0 .. MAX_RETRIES self]" "h r" command t "MAX_RETRIES self"]
  obtain n where n: "written ?sp = written (h r) @ replicate n command"
    "waits ?sp = waits (h r) @ replicate n t" by blast
  show ?thesis unfolding h' using n by (intro exI [of _ n]) simp
qed

lemma move_overflow_no_effect:
  assumes "int_truediv_1000 (duration_ms + timeout_buffer_ms self) = Inl e"
  shows "snd (move (h, self) dx dy duration_ms curve) = (h, self)"
    and "\<exists>e'. fst (move (h, self) dx dy duration_ms curve) = Inl e'"
  by (cases rule: move_cases [of h self dx dy duration_ms curve]; use assms in simp)+

lemma move_overflow_valid:
  assumes "int_truediv_1000 (duration_ms + timeout_buffer_ms self) = Inl e"
    "ensure_connected (h, self) = Inr ()" "valid_move dx dy duration_ms (int_of_Curve c)"
  shows "move (h, self) dx dy duration_ms (Member c) = (Inl e, (h, self))"
  using assms(2) validate_curve_cases(1) [of c] encode_valid [OF assms(3)] assms(1)
  by (rule move_overflow)

lemma move_silent:
  assumes "serial self = Some r" "is_open (h r)" "next_reply (h r) = []"
    "valid_move dx dy duration_ms (int_of_Curve c)" "0 \<le> MAX_RETRIES self"
    "int_truediv_1000 (duration_ms + timeout_buffer_ms self) = Inr t"
  shows "fst (move (h, self) dx dy duration_ms (Member c)) =
           Inl (TimeoutError [S ''Arduino did not respond within '', R t, S ''s''])"
    and "written (fst (snd (move (h, self) dx dy duration_ms (Member c))) r) =
           written (h r) @ [frame_of dx dy duration_ms (int_of_Curve c)]"
    and "waits (fst (snd (move (h, self) dx dy duration_ms (Member c))) r) = waits (h r) @ [t]"
proof -
  let ?f = "frame_of dx dy duration_ms (int_of_Curve c)"
  have att: "[0 .. MAX_RETRIES self] = 0 # [0 + 1 .. MAX_RETRIES self]"
    using assms(5) by (rule upto_rec1)
  have mv: "move (h, self) dx dy duration_ms (Member c) =
     (fst (send_attempts (h r) ?f t (MAX_RETRIES self) [0 .. MAX_RETRIES self]),
      (h(r := snd (send_attempts (h r) ?f t (MAX_RETRIES self) [0 .. MAX_RETRIES self])), self))"
    using assms(1,2) validate_curve_cases(1) [of c] encode_valid [OF assms(4)] assms(6)
    by (rule move_sends)
  have sa: "send_attempts (h r) ?f t (MAX_RETRIES self) [0 .. MAX_RETRIES self] =
     (Inl (TimeoutError [S ''Arduino did not respond within '', R t, S ''s'']),
      snd (exchange (h r) ?f t))"
    unfolding att by (rule send_attempts_silent [OF assms(3)])
  show "fst (move (h, self) dx dy duration_ms (Member c)) =
           Inl (TimeoutError [S ''Arduino did not respond within '', R t, S ''s''])"
    unfolding mv sa by simp
  show "written (fst (snd (move (h, self) dx dy duration_ms (Member c))) r) = written (h r) @ [?f]"
    unfolding mv sa by (simp add: exchange_snd)
  show "waits (fst (snd (move (h, self) dx dy duration_ms (Member c))) r) = waits (h r) @ [t]"
    unfolding mv sa by (simp add: exchange_snd)
qed

lemma scenario_silence:
  "fst (move (connected_to []) 200 0 500 (Member LINEAR)) =
     Inl (TimeoutError [S ''Arduino did not respond within '', R (3 / 2), S ''s''])"
  "written (fst (snd (move (connected_to []) 200 0 500 (Member LINEAR))) 0) =
     [[0xAA, 0x01, 0xC8, 0x00, 0x00, 0x00, 0xF4, 0x01, 0x00, 0x96]]"
  "waits (fst (snd (move (connected_to []) 200 0 500 (Member LINEAR))) 0) = [3 / 2]"
  unfolding move_200_0_500_connected_to by code_simp+

lemma scenario_silence_with_retries_left:
  "fst (move (fst (connected_to [[], [0x00]]), (snd (connected_to [[], [0x00]]))\<lparr>MAX_RETRIES := 5\<rparr>)
     200 0 500 (Member LINEAR)) =
     Inl (TimeoutError [S ''Arduino did not respond within '', R (3 / 2), S ''s''])"
  "written (fst (snd (move (fst (connected_to [[], [0x00]]),
       (snd (connected_to [[], [0x00]]))\<lparr>MAX_RETRIES := 5\<rparr>) 200 0 500 (Member LINEAR))) 0) =
     [[0xAA, 0x01, 0xC8, 0x00, 0x00, 0x00, 0xF4, 0x01, 0x00, 0x96]]"
  unfolding move_200_0_500_retries by code_simp+

lemma scenario_nak_checksum_then_silence:
  "fst (move (fst (connected_to [[0x01], [], [0x00]]),
       (snd (connected_to [[0x01], [], [0x00]]))\<lparr>MAX_RETRIES := 5\<rparr>) 200 0 500 (Member LINEAR)) =
     Inl (TimeoutError [S ''Arduino did not respond within '', R (3 / 2), S ''s''])"
  "length (written (fst (snd (move (fst (connected_to [[0x01], [], [0x00]]),
       (snd (connected_to [[0x01], [], [0x00]]))\<lparr>MAX_RETRIES := 5\<rparr>) 200 0 500 (Member LINEAR))) 0)) = 2"
  unfolding move_200_0_500_retries by code_simp+

lemma scenario_one_millisecond:
  "waits (fst (snd (move (connected_to []) 0 0 1 (Member LINEAR))) 0) =
     [2254051613498933 / 2251799813685248]"
proof -
  have s: "serial fresh_session = Some 0" "timeout_buffer_ms fresh_session = 1000"
    "0 \<le> MAX_RETRIES fresh_session"
    by (simp_all add: fresh_session_def)
  let ?h = "(\<lambda>_. fresh_port [])(0 := fresh_port [])"
  have p: "is_open (?h 0)" "next_reply (?h 0) = []" "waits (?h 0) = []"
    by (simp_all add: fresh_port_def next_reply_def)
  have v: "valid_move 0 0 1 (int_of_Curve LINEAR)" by (simp add: valid_move_def)
  have t: "int_truediv_1000 (1 + timeout_buffer_ms fresh_session) =
      Inr (2254051613498933 / 2251799813685248)"
    using int_truediv_1000_1001 by (simp add: s(2))
  from move_silent(3) [of fresh_session 0 ?h 0 0 1 LINEAR, OF s(1) p(1) p(2) v s(3) t]
  show ?thesis by (simp only: connected_to_def p(3) append_Nil)
qed

lemma scenario_overflow:
  "move (fst (connected_to [[0x00]]),
      (snd (connected_to [[0x00]]))\<lparr>timeout_buffer_ms := 2 ^ 1024 - 500\<rparr>) 200 0 500
      (Member LINEAR) =
     (Inl (OverflowError [S ''int too large to convert to float'']),
      (fst (connected_to [[0x00]]),
       (snd (connected_to [[0x00]]))\<lparr>timeout_buffer_ms := 2 ^ 1024 - 500\<rparr>))"
proof -
  let ?self = "fresh_session\<lparr>timeout_buffer_ms := 2 ^ 1024 - 500\<rparr>"
  let ?h = "(\<lambda>_. fresh_port [])(0 := fresh_port [[0x00]])"
  have c: "ensure_connected (?h, ?self) = Inr ()"
    by (simp add: ensure_connected_def fresh_session_def fresh_port_def)
  have v: "valid_move 200 0 500 (int_of_Curve LINEAR)" by (simp add: valid_move_def)
  have "500 + timeout_buffer_ms ?self = 2 ^ 1024" by simp
  then have t: "int_truediv_1000 (500 + timeout_buffer_ms ?self) =
      Inl (OverflowError [S ''int too large to convert to float''])"
    by (simp only: int_truediv_1000_overflow)
  from move_overflow_valid [OF t c v] show ?thesis by (simp add: connected_to_def)
qed

text \<open>
  C5, as the claim states it, fails where the quotient is not a double: with the default
  buffer and a duration of 1 ms the budget passed to the port is the float \<open>1.001\<close>,
  which is not 1001 ms.
\<close>

theorem move_wait_budget_is_rounded_counterexample:
  "timeout_buffer_ms (snd (connected_to [])) = 1000 \<and>
   waits (fst (snd (move (connected_to []) 0 0 1 (Member LINEAR))) 0) =
     [2254051613498933 / 2251799813685248] \<and>
   (2254051613498933 / 2251799813685248 :: rat) * 1000 \<noteq> 1 + 1000"
proof (intro conjI)
  show "timeout_buffer_ms (snd (connected_to [])) = 1000"
    by (simp add: connected_to_def fresh_session_def)
  show "waits (fst (snd (move (connected_to []) 0 0 1 (Member LINEAR))) 0) =
     [2254051613498933 / 2251799813685248]"
    by (rule scenario_one_millisecond)
  show "(2254051613498933 / 2251799813685248 :: rat) * 1000 \<noteq> 1 + 1000"
    by simp
qed

text \<open>
  C5, amended. In every call of \<open>move\<close> that gets as far as the exchange, each read of
  the response byte waits with the budget \<open>(duration_ms + timeout_buffer_ms) / 1000.0\<close>
  seconds, a float (the default buffer is 1000 ms), one read for each frame written.
  For a sum that is positive and below \<open>2 ^ 53\<close> the budget differs from
  \<open>duration_ms + timeout_buffer_ms\<close> milliseconds by at most that over \<open>2 ^ 53\<close>, and
  it is exactly that where the quotient is a double (500 + 1000 ms is 1.5 s). Where the sum
  is too large for a float, \<open>move\<close> raises \<open>OverflowError\<close> and writes nothing. When a
  read returns no byte, \<open>move\<close> raises the timeout error at once: the frame is not sent
  again, however many attempts remain.
\<close>

theorem move_timeout_is_terminal:
  "(int_truediv_1000 (duration_ms + timeout_buffer_ms self) = Inr t \<and>
    move (h, self) dx dy duration_ms curve = (result, (h', self')) \<and> serial self = Some r \<longrightarrow>
      (\<exists>n. waits (h' r) = waits (h r) @ replicate n t \<and>
            length (written (h' r)) = length (written (h r)) + n)) \<and>
   (0 < duration_ms + timeout_buffer_ms self \<and> duration_ms + timeout_buffer_ms self < 2 ^ 53 \<longrightarrow>
      (\<exists>t'. int_truediv_1000 (duration_ms + timeout_buffer_ms self) = Inr t' \<and>
            \<bar>t' * 1000 - of_int (duration_ms + timeout_buffer_ms self)\<bar> \<le>
              of_int (duration_ms + timeout_buffer_ms self) / 2 ^ 53)) \<and>
   (int_truediv_1000 (duration_ms + timeout_buffer_ms self) = Inl e \<longrightarrow>
      snd (move (h, self) dx dy duration_ms curve) = (h, self) \<and>
      (\<exists>e'. fst (move (h, self) dx dy duration_ms curve) = Inl e')) \<and>
   (int_truediv_1000 (duration_ms + timeout_buffer_ms self) = Inl e \<and>
    ensure_connected (h, self) = Inr () \<and> valid_move dx dy duration_ms (int_of_Curve c) \<longrightarrow>
      move (h, self) dx dy duration_ms (Member c) = (Inl e, (h, self))) \<and>
   (next_reply sp = [] \<longrightarrow>
      send_attempts sp command t m (a # later) =
        (Inl (TimeoutError [S ''Arduino did not respond within '', R t, S ''s'']),
         snd (exchange sp command t)) \<and>
      written (snd (exchange sp command t)) = written sp @ [command]) \<and>
   (serial self = Some r \<and> is_open (h r) \<and> next_reply (h r) = [] \<and>
    valid_move dx dy duration_ms (int_of_Curve c) \<and> 0 \<le> MAX_RETRIES self \<and>
    int_truediv_1000 (duration_ms + timeout_buffer_ms self) = Inr t \<longrightarrow>
      fst (move (h, self) dx dy duration_ms (Member c)) =
        Inl (TimeoutError [S ''Arduino did not respond within '', R t, S ''s'']) \<and>
      written (fst (snd (move (h, self) dx dy duration_ms (Member c))) r) =
        written (h r) @ [frame_of dx dy duration_ms (int_of_Curve c)]) \<and>
   timeout_buffer_ms (snd (connected_to [])) = DEFAULT_TIMEOUT_BUFFER_MS \<and>
   int_truediv_1000 1500 = Inr (3 / 2) \<and>
   int_truediv_1000 1001 = Inr (2254051613498933 / 2251799813685248) \<and>
   int_truediv_1000 (2 ^ 1024) = Inl (OverflowError [S ''int too large to convert to float'']) \<and>
   (int_truediv_1000 k = Inl e \<longleftrightarrow>
      float_of_int k = Inl e \<and> e = OverflowError [S ''int too large to convert to float'']) \<and>
   move (fst (connected_to [[0x00]]),
      (snd (connected_to [[0x00]]))\<lparr>timeout_buffer_ms := 2 ^ 1024 - 500\<rparr>) 200 0 500
      (Member LINEAR) =
     (Inl (OverflowError [S ''int too large to convert to float'']),
      (fst (connected_to [[0x00]]),
       (snd (connected_to [[0x00]]))\<lparr>timeout_buffer_ms := 2 ^ 1024 - 500\<rparr>)) \<and>
   fst (move (connected_to []) 200 0 500 (Member LINEAR)) =
     Inl (TimeoutError [S ''Arduino did not respond within '', R (3 / 2), S ''s'']) \<and>
   written (fst (snd (move (connected_to []) 200 0 500 (Member LINEAR))) 0) =
     [[0xAA, 0x01, 0xC8, 0x00, 0x00, 0x00, 0xF4, 0x01, 0x00, 0x96]] \<and>
   waits (fst (snd (move (connected_to []) 200 0 500 (Member LINEAR))) 0) = [3 / 2] \<and>
   fst (move (fst (connected_to [[], [0x00]]), (snd (connected_to [[], [0x00]]))\<lparr>MAX_RETRIES := 5\<rparr>)
     200 0 500 (Member LINEAR)) =
     Inl (TimeoutError [S ''Arduino did not respond within '', R (3 / 2), S ''s'']) \<and>
   written (fst (snd (move (fst (connected_to [[], [0x00]]),
       (snd (connected_to [[], [0x00]]))\<lparr>MAX_RETRIES := 5\<rparr>) 200 0 500 (Member LINEAR))) 0) =
     [[0xAA, 0x01, 0xC8, 0x00, 0x00, 0x00, 0xF4, 0x01, 0x00, 0x96]] \<and>
   fst (move (fst (connected_to [[0x01], [], [0x00]]),
       (snd (connected_to [[0x01], [], [0x00]]))\<lparr>MAX_RETRIES := 5\<rparr>) 200 0 500 (Member LINEAR)) =
     Inl (TimeoutError [S ''Arduino did not respond within '', R (3 / 2), S ''s'']) \<and>
   length (written (fst (snd (move (fst (connected_to [[0x01], [], [0x00]]),
       (snd (connected_to [[0x01], [], [0x00]]))\<lparr>MAX_RETRIES := 5\<rparr>) 200 0 500 (Member LINEAR))) 0)) = 2"
proof -
  have budget: "int_truediv_1000 (duration_ms + timeout_buffer_ms self) = Inr t \<and>
    move (h, self) dx dy duration_ms curve = (result, (h', self')) \<and> serial self = Some r \<longrightarrow>
      (\<exists>n. waits (h' r) = waits (h r) @ replicate n t \<and>
            length (written (h' r)) = length (written (h r)) + n)"
    using move_waits by blast
  have accurate: "0 < duration_ms + timeout_buffer_ms self \<and>
      duration_ms + timeout_buffer_ms self < 2 ^ 53 \<longrightarrow>
      (\<exists>t'. int_truediv_1000 (duration_ms + timeout_buffer_ms self) = Inr t' \<and>
            \<bar>t' * 1000 - of_int (duration_ms + timeout_buffer_ms self)\<bar> \<le>
              of_int (duration_ms + timeout_buffer_ms self) / 2 ^ 53)"
    using int_truediv_1000_accurate by blast
  have over: "int_truediv_1000 (duration_ms + timeout_buffer_ms self) = Inl e \<longrightarrow>
      snd (move (h, self) dx dy duration_ms curve) = (h, self) \<and>
      (\<exists>e'. fst (move (h, self) dx dy duration_ms curve) = Inl e')"
    using move_overflow_no_effect by blast
  have over': "int_truediv_1000 (duration_ms + timeout_buffer_ms self) = Inl e \<and>
    ensure_connected (h, self) = Inr () \<and> valid_move dx dy duration_ms (int_of_Curve c) \<longrightarrow>
      move (h, self) dx dy duration_ms (Member c) = (Inl e, (h, self))"
    using move_overflow_valid by blast
  have step: "next_reply sp = [] \<longrightarrow>
      send_attempts sp command t m (a # later) =
        (Inl (TimeoutError [S ''Arduino did not respond within '', R t, S ''s'']),
         snd (exchange sp command t)) \<and>
      written (snd (exchange sp command t)) = written sp @ [command]"
    by (simp add: send_attempts_silent exchange_snd)
  have silent: "serial self = Some r \<and> is_open (h r) \<and> next_reply (h r) = [] \<and>
    valid_move dx dy duration_ms (int_of_Curve c) \<and> 0 \<le> MAX_RETRIES self \<and>
    int_truediv_1000 (duration_ms + timeout_buffer_ms self) = Inr t \<longrightarrow>
      fst (move (h, self) dx dy duration_ms (Member c)) =
        Inl (TimeoutError [S ''Arduino did not respond within '', R t, S ''s'']) \<and>
      written (fst (snd (move (h, self) dx dy duration_ms (Member c))) r) =
        written (h r) @ [frame_of dx dy duration_ms (int_of_Curve c)]"
    using move_silent(1,2) by blast
  have buffer: "timeout_buffer_ms (snd (connected_to [])) = DEFAULT_TIMEOUT_BUFFER_MS"
    by (simp add: connected_to_def fresh_session_def DEFAULT_TIMEOUT_BUFFER_MS_def)
  show ?thesis
    by (intro conjI)
      (fact budget accurate over over' step silent buffer int_truediv_1000_1500
        int_truediv_1000_1001 int_truediv_1000_overflow int_truediv_1000_overflows
        scenario_overflow scenario_silence
        scenario_silence_with_retries_left scenario_nak_checksum_then_silence)+
qed

theorem move_timeout_is_terminal_witness:
  "int_truediv_1000 (500 + timeout_buffer_ms (snd (connected_to [[0x01]]))) = Inr (3 / 2) \<and>
   serial (snd (connected_to [[0x01]])) = Some 0 \<and>
   (\<exists>n. waits (fst (snd (move (connected_to [[0x01]]) 7 (- 7) 500 (Member EASE_OUT))) 0) =
           replicate n (3 / 2) \<and>
         length (written (fst (snd (move (connected_to [[0x01]]) 7 (- 7) 500 (Member EASE_OUT))) 0))
           = n)"
proof -
  let ?w = "connected_to [[0x01]]"
  let ?m = "move ?w 7 (- 7) 500 (Member EASE_OUT)"
  have s: "serial (snd ?w) = Some 0" "timeout_buffer_ms (snd ?w) = 1000"
    "written (fst ?w 0) = []" "waits (fst ?w 0) = []"
    by (simp_all add: connected_to_def fresh_session_def fresh_port_def)
  have t: "int_truediv_1000 (500 + timeout_buffer_ms (snd ?w)) = Inr (3 / 2)"
    using int_truediv_1000_1500 by (simp add: s(2))
  have "move (fst ?w, snd ?w) 7 (- 7) 500 (Member EASE_OUT) =
      (fst ?m, (fst (snd ?m), snd (snd ?m)))"
    by simp
  with move_timeout_is_terminal [of 500 "snd ?w" "3 / 2" "fst ?w" 7 "- 7" "Member EASE_OUT"
      "fst ?m" "fst (snd ?m)" "snd (snd ?m)" 0, THEN conjunct1] s(1) t
  have "\<exists>n. waits (fst (snd ?m) 0) = waits (fst ?w 0) @ replicate n (3 / 2) \<and>
      length (written (fst (snd ?m) 0)) = length (written (fst ?w 0)) + n"
    by blast
  with s t show ?thesis by simp
qed

subsection \<open>Claim C8\<close>

text \<open>The four ways a call of \<open>move\<close> can end.\<close>

lemma move_outcomes:
  obtains
    (not_connected) "ensure_connected (h, self) \<noteq> Inr ()"
      "move (h, self) dx dy duration_ms curve =
         (Inl (ConnectionError [S ''Not connected to Arduino'']), (h, self))"
  | (rejected) m where "ensure_connected (h, self) = Inr ()"
      "move (h, self) dx dy duration_ms curve = (Inl (ValueError m), (h, self))"
  | (overflowed) m where "ensure_connected (h, self) = Inr ()"
      "move (h, self) dx dy duration_ms curve = (Inl (OverflowError m), (h, self))"
  | (exchanged) r sp' where "serial self = Some r" "is_open (h r)" "is_open sp'"
      "snd (move (h, self) dx dy duration_ms curve) = (h(r := sp'), self)"
      "fst (move (h, self) dx dy duration_ms curve) = Inr () \<or>
       (\<exists>m. fst (move (h, self) dx dy duration_ms curve) = Inl (TimeoutError m)) \<or>
       (\<exists>m. fst (move (h, self) dx dy duration_ms curve) = Inl (ProtocolError m))"
proof (cases rule: move_cases [of h self dx dy duration_ms curve])
  case (closed e)
  from ensure_connected_error [OF closed(1)] closed show ?thesis
    using not_connected by simp
next
  case (curve e)
  from validate_curve_error [OF curve(2)] obtain m where "e = ValueError m" by blast
  with curve show ?thesis using rejected by simp
next
  case (args c m)
  then show ?thesis using rejected by simp
next
  case (overflow c command m)
  then show ?thesis using overflowed by simp
next
  case (sends r c command t)
  let ?sa = "send_attempts (h r) command t (MAX_RETRIES self) [0 .. MAX_RETRIES self]"
  from send_attempts_effect [of "[0 .. MAX_RETRIES self]" "h r" command t "MAX_RETRIES self"]
  have op: "is_open (snd ?sa)" using sends(2) by auto
  have res: "fst ?sa = Inr () \<or> (\<exists>m. fst ?sa = Inl (TimeoutError m)) \<or>
      (\<exists>m. fst ?sa = Inl (ProtocolError m))"
    using send_attempts_result [of "h r" command t "MAX_RETRIES self" "[0 .. MAX_RETRIES self]"]
    by auto
  have mv: "move (h, self) dx dy duration_ms curve = (fst ?sa, (h(r := snd ?sa), self))"
    by (rule sends(6))
  show ?thesis
  proof (rule exchanged [of r "snd ?sa"])
    show "serial self = Some r" by (rule sends(1))
    show "is_open (h r)" by (rule sends(2))
    show "is_open (snd ?sa)" by (rule op)
    show "snd (move (h, self) dx dy duration_ms curve) = (h(r := snd ?sa), self)"
      by (simp only: mv snd_conv)
    show "fst (move (h, self) dx dy duration_ms curve) = Inr () \<or>
       (\<exists>m. fst (move (h, self) dx dy duration_ms curve) = Inl (TimeoutError m)) \<or>
       (\<exists>m. fst (move (h, self) dx dy duration_ms curve) = Inl (ProtocolError m))"
      using res by (simp only: mv fst_conv)
  qed
qed

lemma move_value_error_no_effect:
  assumes "move (h, self) dx dy duration_ms curve = (Inl (ValueError m), w')"
  shows "w' = (h, self)"
  by (cases rule: move_outcomes [of h self dx dy duration_ms curve]) (use assms in auto)

lemma move_error_keeps_session:
  assumes "move (h, self) dx dy duration_ms curve = (Inl e, w')"
    "e = TimeoutError m \<or> e = ProtocolError m"
  shows "ensure_connected w' = Inr () \<and> snd w' = self"
  by (cases rule: move_outcomes [of h self dx dy duration_ms curve])
    (use assms in \<open>auto simp add: ensure_connected_iff\<close>)

lemma move_preserves_connection:
  assumes "ensure_connected (h, self) = Inr ()"
  shows "ensure_connected (snd (move (h, self) dx dy duration_ms curve)) = Inr ()"
  by (cases rule: move_outcomes [of h self dx dy duration_ms curve])
    (use assms in \<open>auto simp add: ensure_connected_iff\<close>)

lemma move_connection_error_iff:
  "(\<exists>m. fst (move (h, self) dx dy duration_ms curve) = Inl (ConnectionError m)) \<longleftrightarrow>
   ensure_connected (h, self) \<noteq> Inr ()"
  by (cases rule: move_outcomes [of h self dx dy duration_ms curve])
    (auto simp add: ensure_connected_iff)

lemma move_200_0_500_again:
  "move (snd (move (connected_to script) 200 0 500 (Member LINEAR))) 200 0 500 (Member LINEAR) =
     (fst (send_attempts
             (snd (send_attempts (fresh_port script)
                [0xAA, 0x01, 0xC8, 0x00, 0x00, 0x00, 0xF4, 0x01, 0x00, 0x96] (3 / 2) 1 [0 .. 1]))
             [0xAA, 0x01, 0xC8, 0x00, 0x00, 0x00, 0xF4, 0x01, 0x00, 0x96] (3 / 2) 1 [0 .. 1]),
      ((\<lambda>_. fresh_port [])(0 := snd (send_attempts
             (snd (send_attempts (fresh_port script)
                [0xAA, 0x01, 0xC8, 0x00, 0x00, 0x00, 0xF4, 0x01, 0x00, 0x96] (3 / 2) 1 [0 .. 1]))
             [0xAA, 0x01, 0xC8, 0x00, 0x00, 0x00, 0xF4, 0x01, 0x00, 0x96] (3 / 2) 1 [0 .. 1])),
       fresh_session))"
proof -
  let ?f = "[0xAA, 0x01, 0xC8, 0x00, 0x00, 0x00, 0xF4, 0x01, 0x00, 0x96] :: byte list"
  let ?sp = "snd (send_attempts (fresh_port script) ?f (3 / 2) 1 [0 .. 1])"
  let ?h = "(\<lambda>_. fresh_port [])(0 := ?sp)"
  have s: "serial fresh_session = Some 0" "timeout_buffer_ms fresh_session = 1000"
    "MAX_RETRIES fresh_session = 1"
    by (simp_all add: fresh_session_def)
  from send_attempts_effect [of "[0 .. 1]" "fresh_port script" ?f "3 / 2" 1]
  have "is_open ?sp" by (auto simp add: fresh_port_def)
  then have op: "is_open (?h 0)" by simp
  from move_200_0_500 [of fresh_session 0 ?h, OF s(1) op s(2)]
  show ?thesis
    unfolding move_200_0_500_connected_to snd_conv by (simp add: s(3))
qed

lemma send_attempts_ok:
  assumes "next_reply sp = 0 # bs" "0 \<le> m"
  shows "fst (send_attempts sp command t m [0 .. m]) = Inr ()"
proof -
  have att: "[0 .. m] = 0 # [0 + 1 .. m]" using assms(2) by (rule upto_rec1)
  show ?thesis unfolding att by (simp add: send_attempts_reply [OF assms(1)])
qed

lemma scenario_move_after_error:
  "fst (move (connected_to [[0x02], [0x00]]) 200 0 500 (Member LINEAR)) =
     Inl (ProtocolError [S ''Movement failed: '', S ''Invalid command''])"
  "fst (move (snd (move (connected_to [[0x02], [0x00]]) 200 0 500 (Member LINEAR)))
     200 0 500 (Member LINEAR)) = Inr ()"
  "fst (move (connected_to [[], [0x00]]) 200 0 500 (Member LINEAR)) =
     Inl (TimeoutError [S ''Arduino did not respond within '', R (3 / 2), S ''s''])"
  "fst (move (snd (move (connected_to [[], [0x00]]) 200 0 500 (Member LINEAR)))
     200 0 500 (Member LINEAR)) = Inr ()"
proof -
  let ?f = "[0xAA, 0x01, 0xC8, 0x00, 0x00, 0x00, 0xF4, 0x01, 0x00, 0x96] :: byte list"
  show "fst (move (connected_to [[0x02], [0x00]]) 200 0 500 (Member LINEAR)) =
     Inl (ProtocolError [S ''Movement failed: '', S ''Invalid command''])"
    unfolding move_200_0_500_connected_to by code_simp
  show "fst (move (connected_to [[], [0x00]]) 200 0 500 (Member LINEAR)) =
     Inl (TimeoutError [S ''Arduino did not respond within '', R (3 / 2), S ''s''])"
    unfolding move_200_0_500_connected_to by code_simp
  have "device (snd (send_attempts (fresh_port [[0x02], [0x00]]) ?f (3 / 2) 1 [0 .. 1])) = [[0x00]]"
    by code_simp
  then have "next_reply (snd (send_attempts (fresh_port [[0x02], [0x00]]) ?f (3 / 2) 1 [0 .. 1])) =
      [0x00]"
    by (simp add: next_reply_def)
  then show "fst (move (snd (move (connected_to [[0x02], [0x00]]) 200 0 500 (Member LINEAR)))
     200 0 500 (Member LINEAR)) = Inr ()"
    unfolding move_200_0_500_again fst_conv by (rule send_attempts_ok) simp
  have "device (snd (send_attempts (fresh_port [[], [0x00]]) ?f (3 / 2) 1 [0 .. 1])) = [[0x00]]"
    by code_simp
  then have "next_reply (snd (send_attempts (fresh_port [[], [0x00]]) ?f (3 / 2) 1 [0 .. 1])) =
      [0x00]"
    by (simp add: next_reply_def)
  then show "fst (move (snd (move (connected_to [[], [0x00]]) 200 0 500 (Member LINEAR)))
     200 0 500 (Member LINEAR)) = Inr ()"
    unfolding move_200_0_500_again fst_conv by (rule send_attempts_ok) simp
qed

lemma move_refused:
  assumes "serial self = Some r" "is_open (h r)" "valid_move dx dy duration_ms (int_of_Curve c)"
    "0 < duration_ms + timeout_buffer_ms self" "duration_ms + timeout_buffer_ms self < 2 ^ 53"
    "0 \<le> MAX_RETRIES self" "next_reply (h r) = b # bs" "b \<noteq> 0" "b \<noteq> 1"
  shows "fst (move (h, self) dx dy duration_ms (Member c)) =
     Inl (ProtocolError (S ''Movement failed: '' # response_code_to_string (uint b)))"
proof -
  let ?f = "frame_of dx dy duration_ms (int_of_Curve c)"
  from int_truediv_1000_accurate [OF assms(4,5)]
  obtain t where t: "int_truediv_1000 (duration_ms + timeout_buffer_ms self) = Inr t" by blast
  have att: "[0 .. MAX_RETRIES self] = 0 # [0 + 1 .. MAX_RETRIES self]"
    using assms(6) by (rule upto_rec1)
  have mv: "move (h, self) dx dy duration_ms (Member c) =
     (fst (send_attempts (h r) ?f t (MAX_RETRIES self) [0 .. MAX_RETRIES self]),
      (h(r := snd (send_attempts (h r) ?f t (MAX_RETRIES self) [0 .. MAX_RETRIES self])), self))"
    using assms(1,2) validate_curve_cases(1) [of c] encode_valid [OF assms(3)] t
    by (rule move_sends)
  have "fst (send_attempts (h r) ?f t (MAX_RETRIES self) [0 .. MAX_RETRIES self]) =
     Inl (ProtocolError (S ''Movement failed: '' # response_code_to_string (uint b)))"
    unfolding att using assms(8,9) by (simp add: send_attempts_reply [OF assms(7)])
  then show ?thesis unfolding mv by simp
qed

lemma scenario_rejected:
  "move (connected_to [[0x00]]) 40000 0 500 (Member LINEAR) =
     (Inl (ValueError [S ''dx must be in range [-32768, 32767], got '', I 40000]),
      connected_to [[0x00]])"
  "move (connected_to [[0x00]]) 0 0 500 (Plain 4) =
     (Inl (ValueError [S ''Invalid curve value: '', I 4]), connected_to [[0x00]])"
  by (simp_all add: move_def connected_to_def ensure_connected_def fresh_session_def
      fresh_port_def validate_curve_def Curve_of_value_def encode_move_command_def)

text \<open>
  C8. When \<open>move\<close> raises a validation error (\<open>dx\<close>, \<open>dy\<close> or \<open>duration_ms\<close> out of
  range, or an invalid curve), nothing has been written to the port and the state of
  the session and of the port is what it was. After a timeout or a protocol error the
  session object is unchanged and its port is still open, so that a further \<open>move\<close> on
  the same session passes the connection check; \<open>move\<close> never turns a connected session
  into a disconnected one, and it raises the connection error only on a session that
  was not connected before the call.
\<close>

theorem move_errors_leave_session_usable:
  "(move (h, self) dx dy duration_ms curve = (Inl (ValueError m), w') \<longrightarrow> w' = (h, self)) \<and>
   (move (h, self) dx dy duration_ms curve = (Inl e, w') \<and>
    (e = TimeoutError m \<or> e = ProtocolError m) \<longrightarrow>
      ensure_connected w' = Inr () \<and> snd w' = self) \<and>
   (ensure_connected (h, self) = Inr () \<longrightarrow>
      ensure_connected (snd (move (h, self) dx dy duration_ms curve)) = Inr ()) \<and>
   ((\<exists>m. fst (move (h, self) dx dy duration_ms curve) = Inl (ConnectionError m)) \<longleftrightarrow>
      ensure_connected (h, self) \<noteq> Inr ()) \<and>
   move (connected_to [[0x00]]) 40000 0 500 (Member LINEAR) =
     (Inl (ValueError [S ''dx must be in range [-32768, 32767], got '', I 40000]),
      connected_to [[0x00]]) \<and>
   move (connected_to [[0x00]]) 0 0 500 (Plain 4) =
     (Inl (ValueError [S ''Invalid curve value: '', I 4]), connected_to [[0x00]]) \<and>
   fst (move (connected_to [[0x02], [0x00]]) 200 0 500 (Member LINEAR)) =
     Inl (ProtocolError [S ''Movement failed: '', S ''Invalid command'']) \<and>
   fst (move (snd (move (connected_to [[0x02], [0x00]]) 200 0 500 (Member LINEAR)))
     200 0 500 (Member LINEAR)) = Inr () \<and>
   fst (move (connected_to [[], [0x00]]) 200 0 500 (Member LINEAR)) =
     Inl (TimeoutError [S ''Arduino did not respond within '', R (3 / 2), S ''s'']) \<and>
   fst (move (snd (move (connected_to [[], [0x00]]) 200 0 500 (Member LINEAR)))
     200 0 500 (Member LINEAR)) = Inr ()"
proof -
  have a: "move (h, self) dx dy duration_ms curve = (Inl (ValueError m), w') \<longrightarrow> w' = (h, self)"
    using move_value_error_no_effect by blast
  have b: "move (h, self) dx dy duration_ms curve = (Inl e, w') \<and>
    (e = TimeoutError m \<or> e = ProtocolError m) \<longrightarrow>
      ensure_connected w' = Inr () \<and> snd w' = self"
    using move_error_keeps_session by blast
  have c: "ensure_connected (h, self) = Inr () \<longrightarrow>
      ensure_connected (snd (move (h, self) dx dy duration_ms curve)) = Inr ()"
    using move_preserves_connection by blast
  show ?thesis
    by (intro conjI)
      (fact a b c move_connection_error_iff scenario_rejected scenario_move_after_error)+
qed

theorem move_errors_leave_session_usable_witness:
  "ensure_connected (connected_to [[0x03]]) = Inr () \<and>
   fst (move (connected_to [[0x03]]) 1 2 3 (Member EASE_IN)) =
     Inl (ProtocolError [S ''Movement failed: '', S ''Movement interrupted by new command'']) \<and>
   ensure_connected (snd (move (connected_to [[0x03]]) 1 2 3 (Member EASE_IN))) = Inr () \<and>
   snd (snd (move (connected_to [[0x03]]) 1 2 3 (Member EASE_IN))) = snd (connected_to [[0x03]])"
proof -
  let ?w = "connected_to [[0x03]]"
  let ?m = "move (fst ?w, snd ?w) 1 2 3 (Member EASE_IN)"
  let ?e = "ProtocolError [S ''Movement failed: '', S ''Movement interrupted by new command'']"
  have "fst (move ((\<lambda>_. fresh_port [])(0 := fresh_port [[0x03]]), fresh_session) 1 2 3
      (Member EASE_IN)) =
     Inl (ProtocolError (S ''Movement failed: '' # response_code_to_string (uint (0x03 :: byte))))"
    by (rule move_refused [where r = 0 and bs = "[]"])
      (simp_all add: fresh_session_def fresh_port_def valid_move_def next_reply_def)
  then have r: "fst (move ?w 1 2 3 (Member EASE_IN)) = Inl ?e"
    by (simp add: connected_to_def response_code_to_string_def ACK_OK_def NAK_CHECKSUM_def
        NAK_INVALID_def NAK_INTERRUPTED_def)
  then have m: "?m = (Inl ?e, snd ?m)" by (metis prod.collapse)
  have c: "ensure_connected ?w = Inr ()"
    by (simp add: connected_to_def ensure_connected_def fresh_session_def fresh_port_def)
  from move_errors_leave_session_usable [of "fst ?w" "snd ?w" 1 2 3 "Member EASE_IN"
      "[S ''Movement failed: '', S ''Movement interrupted by new command'']" "snd ?m" ?e,
      THEN conjunct2, THEN conjunct1] m
  have "ensure_connected (snd ?m) = Inr () \<and> snd (snd ?m) = snd ?w" by simp
  with r c show ?thesis by simp
qed

subsection \<open>Claim C9\<close>

lemma close_result: "fst (close w) = Inr ()"
  by (simp add: close_def split: prod.splits option.splits)

lemma close_not_connected:
  "ensure_connected (snd (close w)) = Inl (ConnectionError [S ''Not connected to Arduino''])"
  by (simp add: close_def ensure_connected_def split: prod.splits option.splits)

lemma close_idempotent: "close (snd (close w)) = (Inr (), snd (close w))"
  by (simp add: close_def split: prod.splits option.splits)

lemma close_releases:
  assumes "serial self = Some r"
  shows "\<not> is_open (fst (snd (close (h, self))) r)"
  using assms by (simp add: close_def serial_close_def)

lemma close_connected:
  assumes "serial self = Some r" "is_open (h r)"
  shows "close (h, self) = (Inr (), (h(r := (h r)\<lparr>is_open := False\<rparr>), self\<lparr>serial := None\<rparr>))"
  using assms by (simp add: close_def serial_close_def)

lemma close_other_ports:
  assumes "serial self \<noteq> Some r'"
  shows "fst (snd (close (h, self))) r' = h r'"
  using assms by (auto simp add: close_def split: option.splits)

lemma scenario_close_twice:
  "fst (close (connected_to [])) = Inr ()"
  "serial (snd (snd (close (connected_to [])))) = None"
  "is_open (fst (snd (close (connected_to []))) 0) = False"
  "fst (close (snd (close (connected_to [])))) = Inr ()"
  "serial (snd (snd (close (snd (close (connected_to [])))))) = None"
  "is_open (fst (snd (close (snd (close (connected_to []))))) 0) = False"
  "fst (destructor (snd (context_exit (snd (close (connected_to [])))))) = Inr ()"
  "fst (move (snd (close (connected_to [[0x00]]))) 200 0 500 (Member LINEAR)) =
     Inl (ConnectionError [S ''Not connected to Arduino''])"
  by code_simp+

text \<open>
  C9. \<open>close\<close> is idempotent. It raises no error, on any session; on a session already
  closed (by \<open>close\<close>, or by the exit of the context manager, or by the destructor,
  which both call \<open>close\<close>) it changes nothing; and after the first \<open>close\<close> the session
  is not connected and the port it held is not open.
\<close>

theorem close_is_idempotent:
  "fst (close w) = Inr () \<and>
   close (snd (close w)) = (Inr (), snd (close w)) \<and>
   context_exit (snd (close w)) = (Inr (), snd (close w)) \<and>
   destructor (snd (close w)) = (Inr (), snd (close w)) \<and>
   context_exit w = close w \<and> destructor w = close w \<and>
   ensure_connected (snd (close w)) = Inl (ConnectionError [S ''Not connected to Arduino'']) \<and>
   (serial self = Some r \<longrightarrow> \<not> is_open (fst (snd (close (h, self))) r)) \<and>
   (serial self = Some r \<and> is_open (h r) \<longrightarrow>
      close (h, self) =
        (Inr (), (h(r := (h r)\<lparr>is_open := False\<rparr>), self\<lparr>serial := None\<rparr>))) \<and>
   (serial self \<noteq> Some r \<longrightarrow> fst (snd (close (h, self))) r = h r) \<and>
   serial (snd (snd (close (connected_to [])))) = None \<and>
   is_open (fst (snd (close (connected_to []))) 0) = False \<and>
   serial (snd (snd (close (snd (close (connected_to [])))))) = None \<and>
   is_open (fst (snd (close (snd (close (connected_to []))))) 0) = False \<and>
   fst (destructor (snd (context_exit (snd (close (connected_to [])))))) = Inr () \<and>
   fst (move (snd (close (connected_to [[0x00]]))) 200 0 500 (Member LINEAR)) =
     Inl (ConnectionError [S ''Not connected to Arduino''])"
proof -
  have ex: "context_exit (snd (close w)) = (Inr (), snd (close w))"
    and de: "destructor (snd (close w)) = (Inr (), snd (close w))"
    and ex': "context_exit w = close w" and de': "destructor w = close w"
    by (simp_all add: context_exit_def destructor_def close_idempotent)
  have rel: "serial self = Some r \<longrightarrow> \<not> is_open (fst (snd (close (h, self))) r)"
    using close_releases by blast
  have con: "serial self = Some r \<and> is_open (h r) \<longrightarrow>
      close (h, self) =
        (Inr (), (h(r := (h r)\<lparr>is_open := False\<rparr>), self\<lparr>serial := None\<rparr>))"
    using close_connected by blast
  have oth: "serial self \<noteq> Some r \<longrightarrow> fst (snd (close (h, self))) r = h r"
    using close_other_ports by blast
  show ?thesis
    by (intro conjI)
      (fact close_result close_idempotent ex de ex' de' close_not_connected rel con oth
        scenario_close_twice)+
qed

theorem close_is_idempotent_witness:
  "serial (snd (connected_to [[0x00]])) = Some 0 \<and> is_open (fst (connected_to [[0x00]]) 0) \<and>
   \<not> is_open (fst (snd (close (connected_to [[0x00]]))) 0) \<and>
   serial (snd (snd (close (connected_to [[0x00]])))) = None"
proof -
  let ?w = "connected_to [[0x00]]"
  have s: "serial (snd ?w) = Some 0" "is_open (fst ?w 0)"
    by (simp_all add: connected_to_def fresh_session_def fresh_port_def)
  from close_is_idempotent [of "?w" "snd ?w" 0 "fst ?w"] s
  have "close (fst ?w, snd ?w) =
     (Inr (), ((fst ?w)(0 := (fst ?w 0)\<lparr>is_open := False\<rparr>), (snd ?w)\<lparr>serial := None\<rparr>))"
    by blast
  then have "\<not> is_open (fst (snd (close ?w)) 0) \<and> serial (snd (snd (close ?w))) = None"
    by simp
  with s show ?thesis by simp
qed

subsection \<open>Claim C10\<close>











end
